theory Spec2Isabelle
  imports Main "HOL-Library.Word" "HOL-Library.AList" "HOL-Library.Sublist"
begin

section \<open>Bytes, errors and the address book\<close>

text \<open>
  The repository holds three scripts that run the same flow:
  \<^item> the \<^emph>\<open>viem\<close> script (first script of \<^verbatim>\<open>unwallet-bond-credit/index.ts\<close>, inline ABIs);
  \<^item> the \<^emph>\<open>demo\<close> script (second script of \<^verbatim>\<open>index.ts\<close>, viem with ABIs loaded from artifacts);
  \<^item> the \<^emph>\<open>hardhat\<close> script (\<^verbatim>\<open>part_001\<close>, ethers on hardhat).
  Definitions shared by the three are written once; where the scripts differ, each has
  its own definition, suffixed with the script's name.

  A \<^verbatim>\<open>Hex\<close> value is the byte string it denotes. An address is the number its 20 bytes
  denote, a \<^verbatim>\<open>bigint\<close>/\<^verbatim>\<open>number\<close> holding a \<^verbatim>\<open>uint256\<close> is a natural number; the
  encoders reject what does not fit the width, as the libraries do.
\<close>

type_synonym byte = "8 word"
type_synonym bytes = "byte list"
type_synonym address = nat

datatype error =
    ConfigurationError    \<comment> \<open>\<^verbatim>\<open>PRIVATE_KEY environment variable not set\<close>\<close>
  | IntegerOutOfRangeError \<comment> \<open>the packed encoder, value wider than its type\<close>
  | InvalidAddressError    \<comment> \<open>the packed encoder, address wider than 20 bytes\<close>
  | StateSyncError         \<comment> \<open>\<^verbatim>\<open>Balance still 0 after retries - state propagation issue\<close>\<close>
  | TransactionFailed      \<comment> \<open>\<^verbatim>\<open>Transaction failed\<close>\<close>
  | DeploymentFailed       \<comment> \<open>\<^verbatim>\<open>Account deployment failed - no code at address\<close>\<close>
  | FileNotFound           \<comment> \<open>\<^verbatim>\<open>fs.readFileSync\<close> on a missing file\<close>
  | SyntaxError            \<comment> \<open>\<^verbatim>\<open>JSON.parse\<close> on text that is not JSON\<close>
  | TypeError              \<comment> \<open>property access on \<^verbatim>\<open>null\<close>/\<^verbatim>\<open>undefined\<close>, property creation on a primitive\<close>

record addresses =
  K1Validator :: address
  MockRegistry :: address
  NexusBootstrap :: address
  NexusImplementation :: address
  NexusAccountFactory :: address
  BiconomyMetaFactory :: address
  BondModule :: address
  MockToken :: address
  EscrowZyFAI :: address
  EscrowGiza :: address
  EscrowCod3x :: address

text \<open>\<^verbatim>\<open>DEPLOYED_ADDRESSES\<close> of \<^verbatim>\<open>index.ts\<close> (both scripts carry the same table).\<close>

definition DEPLOYED_ADDRESSES :: addresses where
  "DEPLOYED_ADDRESSES = \<lparr>
     K1Validator = 0xaCEeEa78b9E1ACc06F5B6Cc527a3FE71A722CedB,
     MockRegistry = 0x6feaFAbB6ba2a46A62eBb8A39354C73A6e1c283e,
     NexusBootstrap = 0x7B5DED478B61C7Cb54F980A4FFcbEf4CC03B65Ef,
     NexusImplementation = 0x2BF411df5165A1F41D9a5a78b5Fc1Cf1ce83C2E6,
     NexusAccountFactory = 0x123221fd520687f78e556c0F594aaA7030e09F6C,
     BiconomyMetaFactory = 0x74e32771e3dc456D18797df513A1181e166940C2,
     BondModule = 0x29195B26D9C4253C7e956e8ac4556697F7718C6D,
     MockToken = 0x0B1Cddc846C5b1aC1293F943aFd8F642418D6f48,
     EscrowZyFAI = 0x87aadB3aC964d1E50Be5025f08f4AF876DA81d10,
     EscrowGiza = 0x4ad7da42761456f701d44322D25165629F5d795B,
     EscrowCod3x = 0xA15bD240D25721687A90e70C193a7d42e8C5FF6c \<rparr>"

text \<open>\<^verbatim>\<open>DEPLOYED_ADDRESSES\<close> of the hardhat script.\<close>

definition DEPLOYED_ADDRESSES_hardhat :: addresses where
  "DEPLOYED_ADDRESSES_hardhat = \<lparr>
     K1Validator = 0x282605a7ea3892f9a83cf0be621199a6be28ec88,
     MockRegistry = 0x33d9cd23ac7045ab2ccd5f573d6546c2d7e2e6b6,
     NexusBootstrap = 0x646d0a1573b0cc77e0e818b1e828fc6578d224c5,
     NexusImplementation = 0x4ef716f2cd47645b9e37c74a25b8ddcc4b9d3736,
     NexusAccountFactory = 0x8eace774786a98dcb84f7322f43d2108973625e7,
     BiconomyMetaFactory = 0x707c7d8332595014ff814125f10a356685b60a2a,
     BondModule = 0xe0146a494c24775ab07e58107f6e96456ad62dca,
     MockToken = 0x24063f25a4b37047e69bdd029efcba5f298700b7,
     EscrowZyFAI = 0x4064db9a9bab77df20f223e13dac784bb43b4386,
     EscrowGiza = 0x558eaafb72be735e5e6f5a4280e948a6109c26bc,
     EscrowCod3x = 0x1ea3939bcc4c1fce86b14ba6dd893a4796c38f59 \<rparr>"

definition MULTICALL3 :: address where
  "MULTICALL3 = 0xcA11bde05977b3631167028862bE2a173976CA11"

definition INITIAL_TOKEN_BALANCE :: nat where
  "INITIAL_TOKEN_BALANCE = 10000000000"

definition ALLOWANCE_CAP :: nat where
  "ALLOWANCE_CAP = 10000000000"

definition ALLOCATION_ZYFAI :: nat where
  "ALLOCATION_ZYFAI = 3000"

definition ALLOCATION_GIZA :: nat where
  "ALLOCATION_GIZA = 3000"

definition ALLOCATION_COD3X :: nat where
  "ALLOCATION_COD3X = 4000"

definition TOTAL_PERCENTAGE :: nat where
  "TOTAL_PERCENTAGE = 10000"

section \<open>Distribution amounts\<close>

text \<open>
  \<^verbatim>\<open>(accountBalance * BigInt(ALLOCATION_X)) / BigInt(TOTAL_PERCENTAGE)\<close>, the same line in
  the three scripts. \<^verbatim>\<open>accountBalance\<close> is the \<^verbatim>\<open>uint256\<close> that \<^verbatim>\<open>balanceOf\<close> returns and
  the shares are non-negative, so \<^verbatim>\<open>bigint\<close>'s truncating division is the division of
  natural numbers.
\<close>

definition share_amount :: "nat \<Rightarrow> nat \<Rightarrow> nat" where
  "share_amount accountBalance allocation = (accountBalance * allocation) div TOTAL_PERCENTAGE"

definition amountZyFAI :: "nat \<Rightarrow> nat" where
  "amountZyFAI accountBalance = (accountBalance * ALLOCATION_ZYFAI) div TOTAL_PERCENTAGE"

definition amountGiza :: "nat \<Rightarrow> nat" where
  "amountGiza accountBalance = (accountBalance * ALLOCATION_GIZA) div TOTAL_PERCENTAGE"

definition amountCod3x :: "nat \<Rightarrow> nat" where
  "amountCod3x accountBalance = (accountBalance * ALLOCATION_COD3X) div TOTAL_PERCENTAGE"

text \<open>
  An allocation plan is the ordered list of (vault, share in basis points). The scripts
  spell out the plan of three entries; \<open>plan_amounts\<close> applies their line to each entry
  of any plan.
\<close>

type_synonym plan = "(address \<times> nat) list"

definition ALLOCATION_PLAN :: "addresses \<Rightarrow> plan" where
  "ALLOCATION_PLAN cfg =
     [(EscrowZyFAI cfg, ALLOCATION_ZYFAI), (EscrowGiza cfg, ALLOCATION_GIZA),
      (EscrowCod3x cfg, ALLOCATION_COD3X)]"

definition plan_amounts :: "nat \<Rightarrow> plan \<Rightarrow> nat list" where
  "plan_amounts accountBalance p = map (\<lambda>(vault, share). share_amount accountBalance share) p"

definition plan_shares :: "plan \<Rightarrow> nat list" where
  "plan_shares p = map snd p"

section \<open>Packed encoding and the attestation digest\<close>

text \<open>
  \<^verbatim>\<open>keccak256\<close>, the ABI encoder and the ECDSA signature come from the libraries (viem,
  ethers); the development takes them as parameters, gathered in a record.
\<close>

datatype abi_value =
    AAddress address
  | AUint256 nat
  | ABytes bytes
  | ABytes32 bytes
  | ATuple "abi_value list"
  | AArray "abi_value list"

record lib =
  keccak256 :: "bytes \<Rightarrow> bytes"
  encodeAbiParameters :: "abi_value list \<Rightarrow> bytes"
  ecdsa_sign :: "bytes \<Rightarrow> bytes \<Rightarrow> bytes" \<comment> \<open>private key, 32-byte digest\<close>

text \<open>The \<open>n\<close> bytes of a number, most significant first.\<close>

fun be_bytes :: "nat \<Rightarrow> nat \<Rightarrow> bytes" where
  "be_bytes 0 x = []"
| "be_bytes (Suc n) x = be_bytes n (x div 256) @ [of_nat (x mod 256)]"

text \<open>\<^verbatim>\<open>toHex\<close>/\<^verbatim>\<open>toBytes\<close>/\<^verbatim>\<open>toUtf8Bytes\<close> of a string: its bytes (the strings here are ASCII).\<close>

definition toBytes :: "string \<Rightarrow> bytes" where
  "toBytes s = map of_char s"

text \<open>
  \<^verbatim>\<open>encodePacked\<close> (viem) and \<^verbatim>\<open>solidityPacked\<close> (ethers) on the three types the scripts
  use, as Solidity's \<^verbatim>\<open>abi.encodePacked\<close>: a \<^verbatim>\<open>uint256\<close> is its 32 bytes, an address its 20
  bytes, \<^verbatim>\<open>bytes\<close> are copied as they are; nothing carries a length. A value that does not
  fit its type is rejected.
\<close>

datatype packed = PUint256 nat | PAddress address | PBytes bytes

fun encodePacked_value :: "packed \<Rightarrow> error + bytes" where
  "encodePacked_value (PUint256 v) =
     (if v < 2 ^ 256 then Inr (be_bytes 32 v) else Inl IntegerOutOfRangeError)"
| "encodePacked_value (PAddress a) =
     (if a < 2 ^ 160 then Inr (be_bytes 20 a) else Inl InvalidAddressError)"
| "encodePacked_value (PBytes b) = Inr b"

fun encodePacked :: "packed list \<Rightarrow> error + bytes" where
  "encodePacked [] = Inr []"
| "encodePacked (v # vs) =
     (case encodePacked_value v of
        Inl e \<Rightarrow> Inl e
      | Inr h \<Rightarrow> (case encodePacked vs of Inl e \<Rightarrow> Inl e | Inr t \<Rightarrow> Inr (h @ t)))"

text \<open>
  The bytes that are hashed:
  \<^verbatim>\<open>encodePacked(['uint256','address','address','uint256','uint256','bytes'],
  [chainId, accountAddress, MockToken, allowedPercentageBps, nonce, executionBatch])\<close>.
\<close>

definition packedData ::
  "nat \<Rightarrow> address \<Rightarrow> address \<Rightarrow> nat \<Rightarrow> nat \<Rightarrow> bytes \<Rightarrow> error + bytes" where
  "packedData chainId accountAddress token allowedPercentageBps nonce executionBatch =
     encodePacked [PUint256 chainId, PAddress accountAddress, PAddress token,
                   PUint256 allowedPercentageBps, PUint256 nonce, PBytes executionBatch]"

text \<open>
  \<^verbatim>\<open>attestationHash\<close>: \<^verbatim>\<open>keccak256(encodePacked(...))\<close> in the viem script,
  \<^verbatim>\<open>keccak256(toBytes(packedData))\<close> in the demo script and
  \<^verbatim>\<open>solidityPackedKeccak256(...)\<close> in the hardhat script.
\<close>

definition attestationHash ::
  "'x lib_scheme \<Rightarrow> nat \<Rightarrow> address \<Rightarrow> address \<Rightarrow> nat \<Rightarrow> nat \<Rightarrow> bytes \<Rightarrow> error + bytes" where
  "attestationHash L chainId accountAddress token allowedPercentageBps nonce executionBatch =
     (case packedData chainId accountAddress token allowedPercentageBps nonce executionBatch of
        Inl e \<Rightarrow> Inl e
      | Inr pre \<Rightarrow> Inr (keccak256 L pre))"

section \<open>Signing the attestation\<close>

text \<open>The decimal text of a number (JavaScript's \<^verbatim>\<open>String(n)\<close>).\<close>

fun decimal :: "nat \<Rightarrow> string" where
  "decimal n =
     (if n < 10 then [''0123456789'' ! n]
      else decimal (n div 10) @ [''0123456789'' ! (n mod 10)])"

declare decimal.simps [simp del]

text \<open>
  viem's \<^verbatim>\<open>signMessage({ message: { raw } })\<close> signs the personal-message hash of the raw
  bytes: \<^verbatim>\<open>keccak256("\x19Ethereum Signed Message:\n" + String(size(raw)) + raw)\<close>.
\<close>

definition hashMessage :: "'x lib_scheme \<Rightarrow> bytes \<Rightarrow> bytes" where
  "hashMessage L raw =
     keccak256 L
       (toBytes (CHR 0x19 # ''Ethereum Signed Message:'' @ [CHR 0x0A] @ decimal (length raw))
        @ raw)"

definition signMessage :: "'x lib_scheme \<Rightarrow> bytes \<Rightarrow> bytes \<Rightarrow> bytes" where
  "signMessage L privateKey raw = ecdsa_sign L privateKey (hashMessage L raw)"

text \<open>\<^verbatim>\<open>"\x19Ethereum Signed Message:\n32"\<close> of the demo and hardhat scripts.\<close>

definition messagePrefix :: string where
  "messagePrefix = CHR 0x19 # ''Ethereum Signed Message:'' @ [CHR 0x0A] @ ''32''"

definition ethSignedHash :: "'x lib_scheme \<Rightarrow> bytes \<Rightarrow> bytes" where
  "ethSignedHash L digest = keccak256 L (toBytes messagePrefix @ digest)"

text \<open>
  The 32-byte digest that reaches the ECDSA primitive in each script, for the attestation
  hash \<open>h\<close>:
  \<^item> viem: \<^verbatim>\<open>walletClient.signMessage({ message: { raw: attestationHash } })\<close>;
  \<^item> demo: \<^verbatim>\<open>walletClient.signMessage({ message: { raw: ethSignedHash } })\<close>;
  \<^item> hardhat: \<^verbatim>\<open>deployer.signingKey.sign(ethSignedHash)\<close>, which signs the digest as it is.
\<close>

definition signed_digest_viem :: "'x lib_scheme \<Rightarrow> bytes \<Rightarrow> bytes" where
  "signed_digest_viem L h = hashMessage L h"

definition signed_digest_demo :: "'x lib_scheme \<Rightarrow> bytes \<Rightarrow> bytes" where
  "signed_digest_demo L h = hashMessage L (ethSignedHash L h)"

definition signed_digest_hardhat :: "'x lib_scheme \<Rightarrow> bytes \<Rightarrow> bytes" where
  "signed_digest_hardhat L h = ethSignedHash L h"

definition signature_viem :: "'x lib_scheme \<Rightarrow> bytes \<Rightarrow> bytes \<Rightarrow> bytes" where
  "signature_viem L privateKey h = signMessage L privateKey h"

definition signature_demo :: "'x lib_scheme \<Rightarrow> bytes \<Rightarrow> bytes \<Rightarrow> bytes" where
  "signature_demo L privateKey h = signMessage L privateKey (ethSignedHash L h)"

definition signature_hardhat :: "'x lib_scheme \<Rightarrow> bytes \<Rightarrow> bytes \<Rightarrow> bytes" where
  "signature_hardhat L privateKey h = ecdsa_sign L privateKey (ethSignedHash L h)"

text \<open>
  Stand-ins for evaluating the scripts: the hash is the first 32 bytes, zero-padded; the
  encoder writes a tag, a count where the value has parts, and the parts; the signature is
  the key followed by the digest.
\<close>

fun toy_abi :: "abi_value \<Rightarrow> bytes" where
  "toy_abi (AAddress a) = 1 # be_bytes 20 a"
| "toy_abi (AUint256 n) = 2 # be_bytes 32 n"
| "toy_abi (ABytes b) = 3 # of_nat (length b) # b"
| "toy_abi (ABytes32 b) = 4 # b"
| "toy_abi (ATuple vs) = 5 # of_nat (length vs) # concat (map toy_abi vs)"
| "toy_abi (AArray vs) = 6 # of_nat (length vs) # concat (map toy_abi vs)"

definition toy_lib :: lib where
  "toy_lib = \<lparr> keccak256 = (\<lambda>m. take 32 (m @ replicate 32 0)),
               encodeAbiParameters = (\<lambda>vs. concat (map toy_abi vs)),
               ecdsa_sign = (\<lambda>k d. k @ d) \<rparr>"

section \<open>The execution batch\<close>

text \<open>
  \<^verbatim>\<open>keccak256(toHex('approve(address,uint256)')).slice(0, 10)\<close>: the first four bytes of
  the hash of the signature.
\<close>

definition functionSelector :: "'x lib_scheme \<Rightarrow> string \<Rightarrow> bytes" where
  "functionSelector L signature = take 4 (keccak256 L (toBytes signature))"

text \<open>
  \<^verbatim>\<open>encodeFunctionData\<close> of viem and of an ethers interface: selector, then the encoded
  arguments. The demo and hardhat scripts take the ABI from the build artifacts; the
  functions they name have the signatures that the viem script writes out and that
  \<^verbatim>\<open>contracts/interfaces.sol\<close> declares.
\<close>

definition encodeFunctionData :: "'x lib_scheme \<Rightarrow> string \<Rightarrow> abi_value list \<Rightarrow> bytes" where
  "encodeFunctionData L signature args =
     functionSelector L signature @ encodeAbiParameters L args"

record execution =
  target :: address
  ether_value :: nat
  callData :: bytes

text \<open>The six entries of \<^verbatim>\<open>executions\<close>, as the scripts list them.\<close>

definition executions :: "'x lib_scheme \<Rightarrow> addresses \<Rightarrow> nat \<Rightarrow> execution list" where
  "executions L cfg accountBalance =
     [ \<lparr> target = MockToken cfg, ether_value = 0,
         callData = functionSelector L ''approve(address,uint256)''
           @ encodeAbiParameters L [AAddress (EscrowZyFAI cfg), AUint256 (amountZyFAI accountBalance)] \<rparr>,
       \<lparr> target = EscrowZyFAI cfg, ether_value = 0,
         callData = functionSelector L ''deposit(uint256)''
           @ encodeAbiParameters L [AUint256 (amountZyFAI accountBalance)] \<rparr>,
       \<lparr> target = MockToken cfg, ether_value = 0,
         callData = functionSelector L ''approve(address,uint256)''
           @ encodeAbiParameters L [AAddress (EscrowGiza cfg), AUint256 (amountGiza accountBalance)] \<rparr>,
       \<lparr> target = EscrowGiza cfg, ether_value = 0,
         callData = functionSelector L ''deposit(uint256)''
           @ encodeAbiParameters L [AUint256 (amountGiza accountBalance)] \<rparr>,
       \<lparr> target = MockToken cfg, ether_value = 0,
         callData = functionSelector L ''approve(address,uint256)''
           @ encodeAbiParameters L [AAddress (EscrowCod3x cfg), AUint256 (amountCod3x accountBalance)] \<rparr>,
       \<lparr> target = EscrowCod3x cfg, ether_value = 0,
         callData = functionSelector L ''deposit(uint256)''
           @ encodeAbiParameters L [AUint256 (amountCod3x accountBalance)] \<rparr> ]"

text \<open>
  The batch as the specification words it: for each plan entry, in plan order, an approve
  of the entry's amount to the entry's vault on the token, then a deposit of that amount
  on the vault.
\<close>

definition approve_call :: "'x lib_scheme \<Rightarrow> address \<Rightarrow> address \<Rightarrow> nat \<Rightarrow> execution" where
  "approve_call L token vault amount =
     \<lparr> target = token, ether_value = 0,
       callData = encodeFunctionData L ''approve(address,uint256)'' [AAddress vault, AUint256 amount] \<rparr>"

definition deposit_call :: "'x lib_scheme \<Rightarrow> address \<Rightarrow> nat \<Rightarrow> execution" where
  "deposit_call L vault amount =
     \<lparr> target = vault, ether_value = 0,
       callData = encodeFunctionData L ''deposit(uint256)'' [AUint256 amount] \<rparr>"

definition spec_batch :: "'x lib_scheme \<Rightarrow> address \<Rightarrow> nat \<Rightarrow> plan \<Rightarrow> execution list" where
  "spec_batch L token accountBalance p =
     concat (map (\<lambda>(vault, share).
        [approve_call L token vault (share_amount accountBalance share),
         deposit_call L vault (share_amount accountBalance share)]) p)"

text \<open>
  \<^verbatim>\<open>executionBatch\<close>: the ABI encoding of the list as
  \<^verbatim>\<open>(address target, uint256 value, bytes callData)[]\<close>.
\<close>

definition executionBatch :: "'x lib_scheme \<Rightarrow> execution list \<Rightarrow> bytes" where
  "executionBatch L execs =
     encodeAbiParameters L
       [AArray (map (\<lambda>e. ATuple [AAddress (target e), AUint256 (ether_value e), ABytes (callData e)])
                    execs)]"

section \<open>The multicall\<close>

record call3 =
  call_target :: address
  allowFailure :: bool
  call_callData :: bytes

definition encodedFactoryData :: "'x lib_scheme \<Rightarrow> bytes \<Rightarrow> bytes \<Rightarrow> bytes" where
  "encodedFactoryData L initData salt =
     functionSelector L ''createAccount(bytes,bytes32)''
       @ encodeAbiParameters L [ABytes initData, ABytes32 salt]"

definition encodedBatchExecution ::
  "'x lib_scheme \<Rightarrow> address \<Rightarrow> bytes \<Rightarrow> address \<Rightarrow> nat \<Rightarrow> nat \<Rightarrow> bytes \<Rightarrow> bytes" where
  "encodedBatchExecution L accountAddress batch token allowedPercentageBps nonce signature =
     functionSelector L ''executeBatchWithAttestation(address,bytes,address,uint256,uint256,bytes)''
       @ encodeAbiParameters L
           [AAddress accountAddress, ABytes batch, AAddress token,
            AUint256 allowedPercentageBps, AUint256 nonce, ABytes signature]"

text \<open>
  \<^verbatim>\<open>calls\<close>: the meta factory's \<^verbatim>\<open>deployWithFactory(NexusAccountFactory, createAccount(initData,
  salt))\<close>, then the module's \<^verbatim>\<open>executeBatchWithAttestation\<close>.
\<close>

definition calls ::
  "'x lib_scheme \<Rightarrow> addresses \<Rightarrow> bytes \<Rightarrow> bytes \<Rightarrow> address \<Rightarrow> bytes \<Rightarrow> nat \<Rightarrow> nat \<Rightarrow> bytes
     \<Rightarrow> call3 list" where
  "calls L cfg initData salt accountAddress batch allowedPercentageBps nonce signature =
     [ \<lparr> call_target = BiconomyMetaFactory cfg, allowFailure = False,
         call_callData = functionSelector L ''deployWithFactory(address,bytes)''
           @ encodeAbiParameters L
               [AAddress (NexusAccountFactory cfg), ABytes (encodedFactoryData L initData salt)] \<rparr>,
       \<lparr> call_target = BondModule cfg, allowFailure = False,
         call_callData = encodedBatchExecution L accountAddress batch (MockToken cfg)
                           allowedPercentageBps nonce signature \<rparr> ]"

section \<open>The world a run meets, and what a run does\<close>

text \<open>
  What the network and the environment answer is given by a \<open>world\<close>; \<open>state\<close> is what
  a run changes: how many balance reads it made, the transactions and waits it issued,
  and the ledger file. Reads are assumed to be answered; a transaction's outcome is its
  receipt.
\<close>

record world =
  PRIVATE_KEY :: "bytes option"  \<comment> \<open>\<^verbatim>\<open>process.env.PRIVATE_KEY\<close>; \<open>None\<close> when unset or empty\<close>
  chain_id :: nat                \<comment> \<open>the chain id the node reports\<close>
  preComputed :: "address \<times> bytes \<times> bytes"
     \<comment> \<open>\<^verbatim>\<open>{ accountAddress, initData, salt }\<close> of \<^verbatim>\<open>preComputeAccountAddress\<close>\<close>
  existingCode :: bytes          \<comment> \<open>code at the account when the run starts\<close>
  balanceOf :: "nat \<Rightarrow> nat"     \<comment> \<open>the token balance of the account at the \<open>k\<close>-th read\<close>
  clock :: nat                   \<comment> \<open>\<^verbatim>\<open>Math.floor(Date.now() / 1000)\<close> when the nonce is taken\<close>
  receipt_success :: bool        \<comment> \<open>status of the multicall transaction\<close>
  deployedCode :: bytes          \<comment> \<open>code at the account after the multicall\<close>
  today :: string                \<comment> \<open>\<^verbatim>\<open>new Date().toISOString().split("T")[0]\<close>\<close>

datatype action =
    Mint address address nat       \<comment> \<open>token, recipient, amount\<close>
  | Sleep nat                      \<comment> \<open>milliseconds\<close>
  | Aggregate3 address "call3 list" \<comment> \<open>multicall contract, calls\<close>

datatype json =
    JNull
  | JBool bool
  | JNum int
  | JStr string
  | JArr "json list"
  | JObj "(string \<times> json) list"

datatype json_file = NoFile | NotJson | Json json

record state =
  reads :: nat
  trace :: "action list"
  deployments_json :: json_file

definition readBalance :: "world \<Rightarrow> state \<Rightarrow> nat \<times> state" where
  "readBalance w s = (balanceOf w (reads s), s\<lparr>reads := Suc (reads s)\<rparr>)"

definition emit :: "action \<Rightarrow> state \<Rightarrow> state" where
  "emit a s = s\<lparr>trace := trace s @ [a]\<rparr>"

section \<open>The deployment ledger\<close>

text \<open>
  \<^verbatim>\<open>deployments.json\<close> after \<^verbatim>\<open>JSON.parse\<close>. An object is the list of its properties in
  order. JavaScript's rules for the values the script may meet:
  \<^item> \<^verbatim>\<open>!x\<close> holds for \<^verbatim>\<open>undefined\<close>, \<^verbatim>\<open>null\<close>, \<^verbatim>\<open>false\<close>, \<^verbatim>\<open>0\<close> and \<^verbatim>\<open>""\<close>;
  \<^item> reading a property of \<^verbatim>\<open>null\<close> or \<^verbatim>\<open>undefined\<close> throws, of another primitive or of
    an array (for a name that is not an index) gives \<^verbatim>\<open>undefined\<close>;
  \<^item> creating a property on a primitive throws (module code is strict);
  \<^item> a property set on an array stays in memory: \<^verbatim>\<open>JSON.stringify\<close> writes the elements
    only, so the document is unchanged there and nothing below it can fail.
\<close>

fun truthy :: "json option \<Rightarrow> bool" where
  "truthy None = False"
| "truthy (Some JNull) = False"
| "truthy (Some (JBool b)) = b"
| "truthy (Some (JNum n)) = (n \<noteq> 0)"
| "truthy (Some (JStr s)) = (s \<noteq> [])"
| "truthy (Some (JArr xs)) = True"
| "truthy (Some (JObj kvs)) = True"

fun getProp :: "json \<Rightarrow> string \<Rightarrow> error + json option" where
  "getProp JNull k = Inl TypeError"
| "getProp (JObj kvs) k = Inr (map_of kvs k)"
| "getProp v k = Inr None"

fun setProp :: "json \<Rightarrow> string \<Rightarrow> json \<Rightarrow> error + json" where
  "setProp (JObj kvs) k v = Inr (JObj (AList.update k v kvs))"
| "setProp (JArr xs) k v = Inr (JArr xs)"
| "setProp d k v = Inl TypeError"

text \<open>\<^verbatim>\<open>if (!obj.k) { obj.k = {}; }\<close>\<close>

definition ensure :: "json \<Rightarrow> string \<Rightarrow> error + json" where
  "ensure obj k =
     (case getProp obj k of
        Inl e \<Rightarrow> Inl e
      | Inr c \<Rightarrow> if \<not> truthy c then setProp obj k (JObj []) else Inr obj)"

text \<open>
  A statement on \<^verbatim>\<open>obj.k\<close>: the statement \<open>f\<close> runs on the value held there, and
  \<open>obj\<close>, which holds it by reference, shows the change.
\<close>

definition within :: "json \<Rightarrow> string \<Rightarrow> (json \<Rightarrow> error + json) \<Rightarrow> error + json" where
  "within obj k f =
     (case obj of
        JArr xs \<Rightarrow> Inr obj
      | _ \<Rightarrow>
        (case getProp obj k of
           Inl e \<Rightarrow> Inl e
         | Inr None \<Rightarrow> Inl TypeError
         | Inr (Some c) \<Rightarrow> (case f c of Inl e \<Rightarrow> Inl e | Inr c' \<Rightarrow> setProp obj k c')))"

text \<open>
  The three guards and the assignment
  \<^verbatim>\<open>deployments.networks.baseSepolia.modules.bondModule = {...}\<close>.
\<close>

definition mergeBondModule :: "json \<Rightarrow> json \<Rightarrow> error + json" where
  "mergeBondModule bondModule deployments =
     (case ensure deployments ''networks'' of
        Inl e \<Rightarrow> Inl e
      | Inr d1 \<Rightarrow>
     (case within d1 ''networks'' (\<lambda>networks. ensure networks ''baseSepolia'') of
        Inl e \<Rightarrow> Inl e
      | Inr d2 \<Rightarrow>
     (case within d2 ''networks'' (\<lambda>networks.
             within networks ''baseSepolia'' (\<lambda>baseSepolia. ensure baseSepolia ''modules'')) of
        Inl e \<Rightarrow> Inl e
      | Inr d3 \<Rightarrow>
        within d3 ''networks'' (\<lambda>networks.
          within networks ''baseSepolia'' (\<lambda>baseSepolia.
            within baseSepolia ''modules'' (\<lambda>modules.
              setProp modules ''bondModule'' bondModule))))))"

text \<open>The text of an address, \<^verbatim>\<open>0x\<close> and 40 hexadecimal digits (letter case is not modelled).\<close>

fun hex_digits :: "nat \<Rightarrow> nat \<Rightarrow> string" where
  "hex_digits 0 x = []"
| "hex_digits (Suc n) x = hex_digits n (x div 16) @ [''0123456789abcdef'' ! (x mod 16)]"

definition addressText :: "address \<Rightarrow> string" where
  "addressText a = ''0x'' @ hex_digits 40 a"

definition basescan :: "address \<Rightarrow> string" where
  "basescan a = ''https://sepolia.basescan.org/address/'' @ addressText a"

text \<open>The record that is stored, the same in the demo and the hardhat script.\<close>

definition bondModuleRecord :: "addresses \<Rightarrow> string \<Rightarrow> address \<Rightarrow> json" where
  "bondModuleRecord cfg deploymentDate nexusAccountAddress = JObj
     [ (''address'', JStr (addressText (BondModule cfg))),
       (''transactionHash'', JStr ''Latest deployment via Foundry''),
       (''blockNumber'', JStr ''Latest''),
       (''verified'', JBool False),
       (''basescanLink'', JStr (basescan (BondModule cfg))),
       (''deploymentDate'', JStr deploymentDate),
       (''features'', JObj
          [ (''agentMode'', JBool True),
            (''percentageBasedLimits'', JBool True),
            (''teeAttestation'', JBool True),
            (''replayProtection'', JBool True),
            (''yieldProtocolIntegration'', JBool True),
            (''atomicMulticall3Deployment'', JBool True) ]),
       (''demoAccount'', JObj
          [ (''preComputedAddress'', JStr (addressText nexusAccountAddress)),
            (''basescanLink'', JStr (basescan nexusAccountAddress)) ]),
       (''escrowVaults'', JObj
          [ (''zyfai'', JObj
               [ (''address'', JStr (addressText (EscrowZyFAI cfg))),
                 (''allocation'', JStr ''30%''),
                 (''basescanLink'', JStr (basescan (EscrowZyFAI cfg))) ]),
            (''giza'', JObj
               [ (''address'', JStr (addressText (EscrowGiza cfg))),
                 (''allocation'', JStr ''30%''),
                 (''basescanLink'', JStr (basescan (EscrowGiza cfg))) ]),
            (''cod3x'', JObj
               [ (''address'', JStr (addressText (EscrowCod3x cfg))),
                 (''allocation'', JStr ''40%''),
                 (''basescanLink'', JStr (basescan (EscrowCod3x cfg))) ]) ]),
       (''mockToken'', JObj
          [ (''address'', JStr (addressText (MockToken cfg))),
            (''name'', JStr ''Test USDC''),
            (''symbol'', JStr ''USDC''),
            (''decimals'', JNum 6),
            (''basescanLink'', JStr (basescan (MockToken cfg))) ]),
       (''coreContracts'', JObj
          [ (''k1Validator'', JStr (addressText (K1Validator cfg))),
            (''mockRegistry'', JStr (addressText (MockRegistry cfg))),
            (''nexusBootstrap'', JStr (addressText (NexusBootstrap cfg))),
            (''nexusImplementation'', JStr (addressText (NexusImplementation cfg))),
            (''nexusAccountFactory'', JStr (addressText (NexusAccountFactory cfg))),
            (''biconomyMetaFactory'', JStr (addressText (BiconomyMetaFactory cfg))) ]) ]"

text \<open>
  \<^verbatim>\<open>updateDeploymentsJson\<close>. The demo script starts from \<^verbatim>\<open>{}\<close> when the file does not
  exist; the hardhat script reads the file unconditionally.
\<close>

definition writeLedger :: "json \<Rightarrow> json \<Rightarrow> state \<Rightarrow> (error + unit) \<times> state" where
  "writeLedger bondModule deployments s =
     (case mergeBondModule bondModule deployments of
        Inl e \<Rightarrow> (Inl e, s)
      | Inr d \<Rightarrow> (Inr (), s\<lparr>deployments_json := Json d\<rparr>))"

definition updateDeploymentsJson_demo ::
  "string \<Rightarrow> address \<Rightarrow> state \<Rightarrow> (error + unit) \<times> state" where
  "updateDeploymentsJson_demo date nexusAccountAddress s =
     (case deployments_json s of
        NoFile \<Rightarrow> writeLedger (bondModuleRecord DEPLOYED_ADDRESSES date nexusAccountAddress) (JObj []) s
      | NotJson \<Rightarrow> (Inl SyntaxError, s)
      | Json deployments \<Rightarrow>
          writeLedger (bondModuleRecord DEPLOYED_ADDRESSES date nexusAccountAddress) deployments s)"

definition updateDeploymentsJson_hardhat ::
  "string \<Rightarrow> address \<Rightarrow> state \<Rightarrow> (error + unit) \<times> state" where
  "updateDeploymentsJson_hardhat date nexusAccountAddress s =
     (case deployments_json s of
        NoFile \<Rightarrow> (Inl FileNotFound, s)
      | NotJson \<Rightarrow> (Inl SyntaxError, s)
      | Json deployments \<Rightarrow>
          writeLedger (bondModuleRecord DEPLOYED_ADDRESSES_hardhat date nexusAccountAddress)
            deployments s)"

text \<open>Reading a document along a path of property names.\<close>

fun at :: "json \<Rightarrow> string list \<Rightarrow> json option" where
  "at d [] = Some d"
| "at (JObj kvs) (k # ks) = (case map_of kvs k of None \<Rightarrow> None | Some c \<Rightarrow> at c ks)"
| "at d (k # ks) = None"

definition ledger_key :: "string list" where
  "ledger_key = [''networks'', ''baseSepolia'', ''modules'', ''bondModule'']"

text \<open>
  A ledger document in the expected shape: an object, with an object at
  \<^verbatim>\<open>networks\<close>, \<^verbatim>\<open>networks.baseSepolia\<close> and \<^verbatim>\<open>networks.baseSepolia.modules\<close> wherever
  these are present.
\<close>

definition is_object :: "json \<Rightarrow> bool" where
  "is_object d = (case d of JObj kvs \<Rightarrow> True | _ \<Rightarrow> False)"

definition wf_ledger :: "json \<Rightarrow> bool" where
  "wf_ledger d =
     (is_object d
      \<and> (case at d [''networks''] of None \<Rightarrow> True | Some n \<Rightarrow> is_object n)
      \<and> (case at d [''networks'', ''baseSepolia''] of None \<Rightarrow> True | Some b \<Rightarrow> is_object b)
      \<and> (case at d [''networks'', ''baseSepolia'', ''modules''] of
            None \<Rightarrow> True | Some m \<Rightarrow> is_object m))"

section \<open>Minting and confirming the balance\<close>

text \<open>
  The loop of the viem script:
  \<^verbatim>\<open>for (let i = 0; i < 10; i++) { balance = read(); if (balance > 0n) break; await sleep(2000); }\<close>
\<close>

function poll_balance :: "world \<Rightarrow> nat \<Rightarrow> nat \<Rightarrow> state \<Rightarrow> nat \<times> state" where
  "poll_balance w i balance s =
     (if i < 10 then
        (case readBalance w s of
           (b, s1) \<Rightarrow> if b > 0 then (b, s1) else poll_balance w (Suc i) b (emit (Sleep 2000) s1))
      else (balance, s))"
  by pat_completeness auto
termination
  by (relation "measure (\<lambda>(w, i, balance, s). 10 - i)") auto

declare poll_balance.simps [simp del]

definition mintTokensToAccount_viem ::
  "addresses \<Rightarrow> world \<Rightarrow> address \<Rightarrow> state \<Rightarrow> (error + unit) \<times> state" where
  "mintTokensToAccount_viem cfg w accountAddress s =
     (let s1 = emit (Mint (MockToken cfg) accountAddress INITIAL_TOKEN_BALANCE) s;
          s2 = emit (Sleep 3000) s1
      in case poll_balance w 0 0 s2 of
           (balance, s3) \<Rightarrow> if balance = 0 then (Inl StateSyncError, s3) else (Inr (), s3))"

text \<open>The demo script waits a second and reads the balance once, to print it.\<close>

definition mintTokensToAccount_demo ::
  "addresses \<Rightarrow> world \<Rightarrow> address \<Rightarrow> state \<Rightarrow> (error + unit) \<times> state" where
  "mintTokensToAccount_demo cfg w accountAddress s =
     (let s1 = emit (Mint (MockToken cfg) accountAddress INITIAL_TOKEN_BALANCE) s;
          s2 = emit (Sleep 1000) s1
      in case readBalance w s2 of (balance, s3) \<Rightarrow> (Inr (), s3))"

text \<open>The hardhat script reads the balance once, to print it.\<close>

definition mintTokensToAccount_hardhat ::
  "addresses \<Rightarrow> world \<Rightarrow> address \<Rightarrow> state \<Rightarrow> (error + unit) \<times> state" where
  "mintTokensToAccount_hardhat cfg w accountAddress s =
     (let s1 = emit (Mint (MockToken cfg) accountAddress INITIAL_TOKEN_BALANCE) s
      in case readBalance w s1 of (balance, s2) \<Rightarrow> (Inr (), s2))"

section \<open>Deploying the account and executing the distribution\<close>

text \<open>\<^verbatim>\<open>baseSepolia.id\<close> of \<^verbatim>\<open>viem/chains\<close>.\<close>

definition baseSepolia_id :: nat where
  "baseSepolia_id = 84532"

text \<open>
  The viem script: chain id from the chain table, signature by \<^verbatim>\<open>signMessage\<close> on the
  attestation hash, failure when the receipt's status is not \<^verbatim>\<open>success\<close>.
\<close>

definition deployAccountAndExecuteDistribution_viem ::
  "'x lib_scheme \<Rightarrow> addresses \<Rightarrow> bytes \<Rightarrow> world \<Rightarrow> address \<Rightarrow> bytes \<Rightarrow> bytes \<Rightarrow> state
     \<Rightarrow> (error + unit) \<times> state" where
  "deployAccountAndExecuteDistribution_viem L cfg key w accountAddress initData salt s =
     (case readBalance w s of
        (accountBalance, s1) \<Rightarrow>
          (let batch = executionBatch L (executions L cfg accountBalance);
               nonce = clock w;
               allowedPercentageBps = TOTAL_PERCENTAGE;
               chainId = baseSepolia_id
           in case attestationHash L chainId accountAddress (MockToken cfg)
                     allowedPercentageBps nonce batch of
                Inl e \<Rightarrow> (Inl e, s1)
              | Inr h \<Rightarrow>
                  (let signature = signature_viem L key h;
                       s2 = emit (Aggregate3 MULTICALL3
                              (calls L cfg initData salt accountAddress batch
                                 allowedPercentageBps nonce signature)) s1
                   in if receipt_success w then (Inr (), s2) else (Inl TransactionFailed, s2))))"

text \<open>
  The demo script: chain id from the node, signature by \<^verbatim>\<open>signMessage\<close> on
  \<^verbatim>\<open>ethSignedHash\<close>, failure when the account has no code after the transaction.
\<close>

definition deployAccountAndExecuteDistribution_demo ::
  "'x lib_scheme \<Rightarrow> addresses \<Rightarrow> bytes \<Rightarrow> world \<Rightarrow> address \<Rightarrow> bytes \<Rightarrow> bytes \<Rightarrow> state
     \<Rightarrow> (error + unit) \<times> state" where
  "deployAccountAndExecuteDistribution_demo L cfg key w accountAddress initData salt s =
     (case readBalance w s of
        (accountBalance, s1) \<Rightarrow>
          (let batch = executionBatch L (executions L cfg accountBalance);
               nonce = clock w;
               allowedPercentageBps = TOTAL_PERCENTAGE;
               chainId = chain_id w
           in case attestationHash L chainId accountAddress (MockToken cfg)
                     allowedPercentageBps nonce batch of
                Inl e \<Rightarrow> (Inl e, s1)
              | Inr h \<Rightarrow>
                  (let signature = signature_demo L key h;
                       s2 = emit (Aggregate3 MULTICALL3
                              (calls L cfg initData salt accountAddress batch
                                 allowedPercentageBps nonce signature)) s1
                   in if deployedCode w = [] then (Inl DeploymentFailed, s2) else (Inr (), s2))))"

text \<open>
  The hardhat script: chain id from the node, signature by the signing key on
  \<^verbatim>\<open>ethSignedHash\<close>; \<^verbatim>\<open>tx.wait()\<close> rejects a reverted transaction, and the script fails
  when the account has no code afterwards.
\<close>

definition deployAccountAndExecuteDistribution_hardhat ::
  "'x lib_scheme \<Rightarrow> addresses \<Rightarrow> bytes \<Rightarrow> world \<Rightarrow> address \<Rightarrow> bytes \<Rightarrow> bytes \<Rightarrow> state
     \<Rightarrow> (error + unit) \<times> state" where
  "deployAccountAndExecuteDistribution_hardhat L cfg key w accountAddress initData salt s =
     (case readBalance w s of
        (accountBalance, s1) \<Rightarrow>
          (let batch = executionBatch L (executions L cfg accountBalance);
               nonce = clock w;
               allowedPercentageBps = TOTAL_PERCENTAGE;
               chainId = chain_id w
           in case attestationHash L chainId accountAddress (MockToken cfg)
                     allowedPercentageBps nonce batch of
                Inl e \<Rightarrow> (Inl e, s1)
              | Inr h \<Rightarrow>
                  (let signature = signature_hardhat L key h;
                       s2 = emit (Aggregate3 MULTICALL3
                              (calls L cfg initData salt accountAddress batch
                                 allowedPercentageBps nonce signature)) s1
                   in if \<not> receipt_success w then (Inl TransactionFailed, s2)
                      else if deployedCode w = [] then (Inl DeploymentFailed, s2)
                      else (Inr (), s2))))"

section \<open>The three runs\<close>

text \<open>
  \<^verbatim>\<open>main\<close> of the viem script. viem's \<^verbatim>\<open>getCode\<close> gives \<^verbatim>\<open>undefined\<close> for an address
  without code, so \<^verbatim>\<open>existingCode && existingCode !== '0x'\<close> holds when there is code.
\<close>

definition main_viem :: "'x lib_scheme \<Rightarrow> world \<Rightarrow> state \<Rightarrow> (error + unit) \<times> state" where
  "main_viem L w s =
     (case PRIVATE_KEY w of
        None \<Rightarrow> (Inl ConfigurationError, s)
      | Some key \<Rightarrow>
          (case preComputed w of
             (accountAddress, initData, salt) \<Rightarrow>
               if existingCode w \<noteq> [] then (Inr (), s)
               else
                 (case mintTokensToAccount_viem DEPLOYED_ADDRESSES w accountAddress s of
                    (Inl e, s1) \<Rightarrow> (Inl e, s1)
                  | (Inr u, s1) \<Rightarrow>
                      deployAccountAndExecuteDistribution_viem L DEPLOYED_ADDRESSES key w
                        accountAddress initData salt s1)))"

definition main_demo :: "'x lib_scheme \<Rightarrow> world \<Rightarrow> state \<Rightarrow> (error + unit) \<times> state" where
  "main_demo L w s =
     (case PRIVATE_KEY w of
        None \<Rightarrow> (Inl ConfigurationError, s)
      | Some key \<Rightarrow>
          (case preComputed w of
             (accountAddress, initData, salt) \<Rightarrow>
               if existingCode w \<noteq> [] then updateDeploymentsJson_demo (today w) accountAddress s
               else
                 (case mintTokensToAccount_demo DEPLOYED_ADDRESSES w accountAddress s of
                    (Inl e, s1) \<Rightarrow> (Inl e, s1)
                  | (Inr u, s1) \<Rightarrow>
                      (case deployAccountAndExecuteDistribution_demo L DEPLOYED_ADDRESSES key w
                              accountAddress initData salt s1 of
                         (Inl e, s2) \<Rightarrow> (Inl e, s2)
                       | (Inr u, s2) \<Rightarrow>
                           updateDeploymentsJson_demo (today w) accountAddress s2))))"

definition main_hardhat :: "'x lib_scheme \<Rightarrow> world \<Rightarrow> state \<Rightarrow> (error + unit) \<times> state" where
  "main_hardhat L w s =
     (case PRIVATE_KEY w of
        None \<Rightarrow> (Inl ConfigurationError, s)
      | Some key \<Rightarrow>
          (case preComputed w of
             (accountAddress, initData, salt) \<Rightarrow>
               if existingCode w \<noteq> [] then
                 updateDeploymentsJson_hardhat (today w) accountAddress s
               else
                 (case mintTokensToAccount_hardhat DEPLOYED_ADDRESSES_hardhat w accountAddress s of
                    (Inl e, s1) \<Rightarrow> (Inl e, s1)
                  | (Inr u, s1) \<Rightarrow>
                      (case deployAccountAndExecuteDistribution_hardhat L
                              DEPLOYED_ADDRESSES_hardhat key w accountAddress initData salt s1 of
                         (Inl e, s2) \<Rightarrow> (Inl e, s2)
                       | (Inr u, s2) \<Rightarrow>
                           updateDeploymentsJson_hardhat (today w) accountAddress s2))))"

text \<open>The record that the ledger file holds under the ledger key, if any.\<close>

definition ledger_record :: "state \<Rightarrow> json option" where
  "ledger_record s = (case deployments_json s of Json d \<Rightarrow> at d ledger_key | _ \<Rightarrow> None)"

section \<open>A world and a state to run the scripts in\<close>

definition example_world :: world where
  "example_world =
     \<lparr> PRIVATE_KEY = Some [1], chain_id = 84532, preComputed = (7, [2], [3]),
       existingCode = [], balanceOf = (\<lambda>k. 10000000000), clock = 1762041600,
       receipt_success = True, deployedCode = [4], today = ''2025-11-02'' \<rparr>"

definition initial_state :: state where
  "initial_state = \<lparr> reads = 0, trace = [], deployments_json = NoFile \<rparr>"

text \<open>The same world with a node that does not show the minted balance yet.\<close>

definition stale_world :: world where
  "stale_world = example_world\<lparr>balanceOf := (\<lambda>k. 0)\<rparr>"

section \<open>Reading the ledger, and example ledgers\<close>

text \<open>
  Paths on or below a key path: a prefix of it or an extension of it. What a write under
  the key path may change lies there.
\<close>

definition related :: "string list \<Rightarrow> string list \<Rightarrow> bool" where
  "related ks p = (prefix p ks \<or> prefix ks p)"

definition container :: "json \<Rightarrow> bool" where
  "container d = (case d of JObj kvs \<Rightarrow> True | JArr xs \<Rightarrow> True | _ \<Rightarrow> False)"

text \<open>The demo script's ledger after an upsert for account 7, and after one for account 8.\<close>

definition ledger_after_first :: state where
  "ledger_after_first = snd (updateDeploymentsJson_demo ''2025-11-02'' 7 initial_state)"

definition ledger_after_second :: state where
  "ledger_after_second = snd (updateDeploymentsJson_demo ''2025-11-02'' 8 ledger_after_first)"

text \<open>
  A world where the account already has code, and a ledger that holds the record of an
  earlier run (another day, another account).
\<close>

definition deployed_world :: world where
  "deployed_world = example_world\<lparr>existingCode := [4]\<rparr>"

definition earlier_record :: json where
  "earlier_record = bondModuleRecord DEPLOYED_ADDRESSES_hardhat ''2025-10-31'' 5"

definition ledger_state :: state where
  "ledger_state =
     \<lparr> reads = 0, trace = [],
       deployments_json = Json (JObj
         [(''networks'', JObj
            [(''baseSepolia'', JObj
               [(''modules'', JObj [(''bondModule'', earlier_record)])])])]) \<rparr>"

section \<open>Properties of the distribution amounts\<close>

lemma plan_amounts_script:
  "plan_amounts b (ALLOCATION_PLAN cfg) = [amountZyFAI b, amountGiza b, amountCod3x b]"
  by (simp add: plan_amounts_def ALLOCATION_PLAN_def share_amount_def amountZyFAI_def
      amountGiza_def amountCod3x_def)

lemma sum_products_split:
  "sum_list (map (\<lambda>s. (b::nat) * s) xs) =
     d * sum_list (map (\<lambda>s. b * s div d) xs) + sum_list (map (\<lambda>s. b * s mod d) xs)"
  by (induction xs) (simp_all add: algebra_simps)

lemma sum_remainders_bound:
  "0 < d \<Longrightarrow> xs \<noteq> [] \<Longrightarrow> sum_list (map (\<lambda>s. (b::nat) * s mod d) xs) < d * length xs"
proof (induction xs)
  case Nil
  then show ?case by simp
next
  case (Cons x xs)
  have head: "b * x mod d < d" using Cons.prems(1) by simp
  show ?case
  proof (cases "xs = []")
    case True
    with head show ?thesis by simp
  next
    case False
    with Cons have "sum_list (map (\<lambda>s. b * s mod d) xs) < d * length xs" by simp
    with head show ?thesis by (simp add: algebra_simps)
  qed
qed

lemma floor_shares_total:
  fixes b :: nat
  assumes "sum_list xs = d" and "0 < d"
  shows "sum_list (map (\<lambda>s. b * s div d) xs) \<le> b"
    and "b < sum_list (map (\<lambda>s. b * s div d) xs) + length xs"
proof -
  let ?q = "sum_list (map (\<lambda>s. b * s div d) xs)"
  let ?r = "sum_list (map (\<lambda>s. b * s mod d) xs)"
  have ne: "xs \<noteq> []" using assms by auto
  have "sum_list (map (\<lambda>s. b * s) xs) = b * sum_list xs"
    by (induction xs) (simp_all add: algebra_simps)
  then have eq: "d * b = d * ?q + ?r"
    using sum_products_split [of b xs d] assms(1) by (simp add: mult.commute)
  then have "d * ?q \<le> d * b" by simp
  then show "?q \<le> b" using assms(2) by simp
  have "?r < d * length xs" using sum_remainders_bound [OF assms(2) ne] .
  then have "d * b < d * (?q + length xs)" using eq by (simp add: algebra_simps)
  then show "b < ?q + length xs" using assms(2) by simp
qed

lemma plan_amounts_floor:
  "plan_amounts b p = map (\<lambda>s. b * s div 10000) (plan_shares p)"
  by (simp add: plan_amounts_def plan_shares_def share_amount_def TOTAL_PERCENTAGE_def
      case_prod_beta comp_def)

lemma plan_amounts_sum_le:
  assumes "sum_list (plan_shares p) = 10000"
  shows "sum_list (plan_amounts b p) \<le> b"
proof -
  have d: "(0::nat) < 10000" by simp
  show ?thesis unfolding plan_amounts_floor by (rule floor_shares_total(1) [OF assms d])
qed

lemma plan_amounts_shortfall:
  assumes "sum_list (plan_shares p) = 10000"
  shows "b < sum_list (plan_amounts b p) + length p"
proof -
  have d: "(0::nat) < 10000" by simp
  have "b < sum_list (plan_amounts b p) + length (plan_shares p)"
    unfolding plan_amounts_floor by (rule floor_shares_total(2) [OF assms d])
  then show ?thesis by (simp add: plan_shares_def)
qed

lemma script_amounts_floor:
  "amountZyFAI b = (b * 3000) div 10000" "amountGiza b = (b * 3000) div 10000"
  "amountCod3x b = (b * 4000) div 10000"
  by (simp_all add: amountZyFAI_def amountGiza_def amountCod3x_def ALLOCATION_ZYFAI_def
      ALLOCATION_GIZA_def ALLOCATION_COD3X_def TOTAL_PERCENTAGE_def)

lemma ALLOCATION_PLAN_shares: "sum_list (plan_shares (ALLOCATION_PLAN cfg)) = 10000"
  by (simp add: plan_shares_def ALLOCATION_PLAN_def ALLOCATION_ZYFAI_def ALLOCATION_GIZA_def
      ALLOCATION_COD3X_def)

lemma script_amounts_total:
  "amountZyFAI b + amountGiza b + amountCod3x b \<le> b"
  "b < amountZyFAI b + amountGiza b + amountCod3x b + 3"
  using plan_amounts_sum_le [OF ALLOCATION_PLAN_shares, of b cfg]
    plan_amounts_shortfall [OF ALLOCATION_PLAN_shares, of b cfg]
    plan_amounts_script [of b cfg]
  by (simp_all add: ALLOCATION_PLAN_def)


text \<open>
  C3. Each amount is \<open>\<lfloor>balance * share / 10000\<rfloor>\<close>, and nothing of the remainder is added
  to an entry: this holds for the three amounts that the scripts compute (shares 3000, 3000
  and 4000, which are the amounts of their plan) and for the amounts of every plan. When the
  shares sum to 10000, as those of the scripts' plan do, the amounts sum to at most the
  balance and the shortfall is below the number of entries.
\<close>

theorem plan_amounts_floor_and_shortfall:
  assumes "sum_list (plan_shares p) = 10000"
  shows "length (plan_amounts b p) = length p
    \<and> (\<forall>i < length p. plan_amounts b p ! i = (b * snd (p ! i)) div 10000)
    \<and> sum_list (plan_amounts b p) \<le> b
    \<and> b - sum_list (plan_amounts b p) < length p
    \<and> sum_list (plan_shares (ALLOCATION_PLAN cfg)) = 10000
    \<and> plan_amounts b (ALLOCATION_PLAN cfg) = [amountZyFAI b, amountGiza b, amountCod3x b]
    \<and> amountZyFAI b = (b * 3000) div 10000
    \<and> amountGiza b = (b * 3000) div 10000
    \<and> amountCod3x b = (b * 4000) div 10000
    \<and> amountZyFAI b + amountGiza b + amountCod3x b \<le> b
    \<and> b - (amountZyFAI b + amountGiza b + amountCod3x b) < 3"
proof (intro conjI)
  show "length (plan_amounts b p) = length p"
    by (simp add: plan_amounts_def)
  show "\<forall>i < length p. plan_amounts b p ! i = (b * snd (p ! i)) div 10000"
    by (simp add: plan_amounts_floor plan_shares_def)
  show "sum_list (plan_amounts b p) \<le> b"
    by (rule plan_amounts_sum_le [OF assms])
  show "b - sum_list (plan_amounts b p) < length p"
    using plan_amounts_shortfall [OF assms, of b] plan_amounts_sum_le [OF assms, of b]
    by simp
  show "sum_list (plan_shares (ALLOCATION_PLAN cfg)) = 10000"
    by (rule ALLOCATION_PLAN_shares)
  show "plan_amounts b (ALLOCATION_PLAN cfg) = [amountZyFAI b, amountGiza b, amountCod3x b]"
    by (rule plan_amounts_script)
  show "amountZyFAI b = (b * 3000) div 10000" "amountGiza b = (b * 3000) div 10000"
    "amountCod3x b = (b * 4000) div 10000"
    by (rule script_amounts_floor)+
  show "amountZyFAI b + amountGiza b + amountCod3x b \<le> b"
    by (rule script_amounts_total)
  show "b - (amountZyFAI b + amountGiza b + amountCod3x b) < 3"
    using script_amounts_total [of b] by simp
qed

theorem plan_amounts_floor_and_shortfall_witness:
  "sum_list (plan_shares (ALLOCATION_PLAN DEPLOYED_ADDRESSES)) = 10000
   \<and> amountZyFAI 9999 = 2999 \<and> amountGiza 9999 = 2999 \<and> amountCod3x 9999 = 3999
   \<and> plan_amounts 9999 (ALLOCATION_PLAN DEPLOYED_ADDRESSES) = [2999, 2999, 3999]
   \<and> sum_list (plan_amounts 9999 (ALLOCATION_PLAN DEPLOYED_ADDRESSES)) \<le> 9999
   \<and> 9999 - sum_list (plan_amounts 9999 (ALLOCATION_PLAN DEPLOYED_ADDRESSES)) < 3
   \<and> amountZyFAI 9999 + amountGiza 9999 + amountCod3x 9999 \<le> 9999
   \<and> 9999 - (amountZyFAI 9999 + amountGiza 9999 + amountCod3x 9999) < 3"
proof -
  have h: "sum_list (plan_shares (ALLOCATION_PLAN DEPLOYED_ADDRESSES)) = 10000"
    by (rule ALLOCATION_PLAN_shares)
  from plan_amounts_floor_and_shortfall [OF h, of 9999 DEPLOYED_ADDRESSES]
  have a: "amountZyFAI 9999 = (9999 * 3000) div 10000"
    "amountGiza 9999 = (9999 * 3000) div 10000" "amountCod3x 9999 = (9999 * 4000) div 10000"
    and p: "plan_amounts 9999 (ALLOCATION_PLAN DEPLOYED_ADDRESSES)
              = [amountZyFAI 9999, amountGiza 9999, amountCod3x 9999]"
    and s: "sum_list (plan_amounts 9999 (ALLOCATION_PLAN DEPLOYED_ADDRESSES)) \<le> 9999"
      "9999 - sum_list (plan_amounts 9999 (ALLOCATION_PLAN DEPLOYED_ADDRESSES))
         < length (ALLOCATION_PLAN DEPLOYED_ADDRESSES)"
    by blast+
  have v: "amountZyFAI 9999 = 2999" "amountGiza 9999 = 2999" "amountCod3x 9999 = 3999"
    using a by simp_all
  have n: "length (ALLOCATION_PLAN DEPLOYED_ADDRESSES) = 3" by (simp add: ALLOCATION_PLAN_def)
  from h v p s n show ?thesis by simp
qed

text \<open>
  C9. With the balance 10,000,000,000 that the scripts mint and their plan 3000/3000/4000,
  the amounts are 3,000,000,000, 3,000,000,000 and 4,000,000,000, and they add up to the
  balance: nothing is lost to rounding.
\<close>

theorem initial_balance_distribution:
  "amountZyFAI INITIAL_TOKEN_BALANCE = 3000000000
   \<and> amountGiza INITIAL_TOKEN_BALANCE = 3000000000
   \<and> amountCod3x INITIAL_TOKEN_BALANCE = 4000000000
   \<and> plan_amounts INITIAL_TOKEN_BALANCE (ALLOCATION_PLAN cfg) = [3000000000, 3000000000, 4000000000]
   \<and> sum_list (plan_amounts INITIAL_TOKEN_BALANCE (ALLOCATION_PLAN cfg)) = INITIAL_TOKEN_BALANCE"
  by (simp add: plan_amounts_script amountZyFAI_def amountGiza_def amountCod3x_def
      INITIAL_TOKEN_BALANCE_def ALLOCATION_ZYFAI_def ALLOCATION_GIZA_def ALLOCATION_COD3X_def
      TOTAL_PERCENTAGE_def)

section \<open>Properties of the packed encoding\<close>

lemma length_be_bytes [simp]: "length (be_bytes n x) = n"
  by (induction n arbitrary: x) auto

lemma byte_of_nat_inj:
  "a < 256 \<Longrightarrow> b < 256 \<Longrightarrow> (of_nat a :: byte) = of_nat b \<Longrightarrow> a = b"
  by (simp add: word_of_nat_eq_iff take_bit_nat_eq_self)

lemma be_bytes_inj:
  "x < 256 ^ n \<Longrightarrow> y < 256 ^ n \<Longrightarrow> be_bytes n x = be_bytes n y \<Longrightarrow> x = y"
proof (induction n arbitrary: x y)
  case 0
  then show ?case by simp
next
  case (Suc n)
  from Suc.prems have lt: "x div 256 < 256 ^ n" "y div 256 < 256 ^ n"
    by (simp_all add: less_mult_imp_div_less mult.commute)
  from Suc.prems(3) have "be_bytes n (x div 256) = be_bytes n (y div 256)"
    and b: "(of_nat (x mod 256) :: byte) = of_nat (y mod 256)"
    by simp_all
  then have "x div 256 = y div 256" using Suc.IH lt by blast
  moreover have "x mod 256 = y mod 256" using b by (intro byte_of_nat_inj) simp_all
  ultimately show ?case by (metis div_mult_mod_eq)
qed

lemma be32_inj: "x < 2 ^ 256 \<Longrightarrow> y < 2 ^ 256 \<Longrightarrow> be_bytes 32 x = be_bytes 32 y \<Longrightarrow> x = y"
  using be_bytes_inj [of x 32 y] by simp

lemma be20_inj: "x < 2 ^ 160 \<Longrightarrow> y < 2 ^ 160 \<Longrightarrow> be_bytes 20 x = be_bytes 20 y \<Longrightarrow> x = y"
  using be_bytes_inj [of x 20 y] by simp

lemma packedData_Inr:
  "packedData c a t p n b = Inr pre \<longleftrightarrow>
     c < 2 ^ 256 \<and> a < 2 ^ 160 \<and> t < 2 ^ 160 \<and> p < 2 ^ 256 \<and> n < 2 ^ 256
     \<and> pre = be_bytes 32 c @ be_bytes 20 a @ be_bytes 20 t @ be_bytes 32 p @ be_bytes 32 n @ b"
  unfolding packedData_def by (auto simp del: be_bytes.simps)

lemma packedData_inj:
  assumes "packedData c a t p n b = Inr pre" and "packedData c' a' t' p' n' b' = Inr pre"
  shows "c' = c \<and> a' = a \<and> t' = t \<and> p' = p \<and> n' = n \<and> b' = b"
proof -
  from assms(1) have r: "c < 2 ^ 256" "a < 2 ^ 160" "t < 2 ^ 160" "p < 2 ^ 256" "n < 2 ^ 256"
    and e: "pre = be_bytes 32 c @ be_bytes 20 a @ be_bytes 20 t @ be_bytes 32 p
                  @ be_bytes 32 n @ b"
    by (simp_all add: packedData_Inr)
  from assms(2) have r': "c' < 2 ^ 256" "a' < 2 ^ 160" "t' < 2 ^ 160" "p' < 2 ^ 256"
      "n' < 2 ^ 256"
    and e': "pre = be_bytes 32 c' @ be_bytes 20 a' @ be_bytes 20 t' @ be_bytes 32 p'
                   @ be_bytes 32 n' @ b'"
    by (simp_all add: packedData_Inr)
  from e e' have "be_bytes 32 c = be_bytes 32 c'" "be_bytes 20 a = be_bytes 20 a'"
    "be_bytes 20 t = be_bytes 20 t'" "be_bytes 32 p = be_bytes 32 p'"
    "be_bytes 32 n = be_bytes 32 n'" "b = b'"
    by (simp_all del: be_bytes.simps)
  then show ?thesis
    using be32_inj [OF r(1) r'(1)] be20_inj [OF r(2) r'(2)] be20_inj [OF r(3) r'(3)]
      be32_inj [OF r(4) r'(4)] be32_inj [OF r(5) r'(5)]
    by (simp del: be_bytes.simps)
qed

text \<open>
  C1. The digest is the hash of the chain id (32 bytes), the account (20 bytes), the token
  (20 bytes), the cap (32 bytes) and the nonce (32 bytes), in this order and without length
  prefixes, followed by the batch bytes as they are. The digest is a function of these
  inputs, and two input tuples with the same pre-image are the same tuple: changing a
  field or a byte of the batch changes the bytes that are hashed.
\<close>

theorem attestation_preimage_layout_injective:
  assumes "chainId < 2 ^ 256" and "accountAddress < 2 ^ 160" and "token < 2 ^ 160"
    and "cap < 2 ^ 256" and "nonce < 2 ^ 256"
  shows "packedData chainId accountAddress token cap nonce batch =
           Inr (be_bytes 32 chainId @ be_bytes 20 accountAddress @ be_bytes 20 token
                @ be_bytes 32 cap @ be_bytes 32 nonce @ batch)
    \<and> attestationHash L chainId accountAddress token cap nonce batch =
           Inr (keccak256 L (be_bytes 32 chainId @ be_bytes 20 accountAddress
                @ be_bytes 20 token @ be_bytes 32 cap @ be_bytes 32 nonce @ batch))
    \<and> length (be_bytes 32 chainId @ be_bytes 20 accountAddress @ be_bytes 20 token
                @ be_bytes 32 cap @ be_bytes 32 nonce @ batch) = 136 + length batch
    \<and> (\<forall>c' a' t' p' n' b'.
          packedData c' a' t' p' n' b' = packedData chainId accountAddress token cap nonce batch
          \<longrightarrow> c' = chainId \<and> a' = accountAddress \<and> t' = token \<and> p' = cap \<and> n' = nonce
              \<and> b' = batch)"
proof -
  let ?pre = "be_bytes 32 chainId @ be_bytes 20 accountAddress @ be_bytes 20 token
                @ be_bytes 32 cap @ be_bytes 32 nonce @ batch"
  have pre: "packedData chainId accountAddress token cap nonce batch = Inr ?pre"
    using assms by (simp add: packedData_Inr del: be_bytes.simps)
  have hash: "attestationHash L chainId accountAddress token cap nonce batch
                = Inr (keccak256 L ?pre)"
    by (simp add: attestationHash_def pre del: be_bytes.simps)
  have len: "length ?pre = 136 + length batch"
    by (simp del: be_bytes.simps)
  have inj: "c' = chainId \<and> a' = accountAddress \<and> t' = token \<and> p' = cap \<and> n' = nonce
              \<and> b' = batch"
    if "packedData c' a' t' p' n' b' = packedData chainId accountAddress token cap nonce batch"
    for c' a' t' p' n' b'
    using packedData_inj [OF pre] that pre by simp
  from pre hash len inj show ?thesis by blast
qed

theorem attestation_preimage_layout_injective_witness:
  "(84532::nat) < 2 ^ 256 \<and> (7::nat) < 2 ^ 160 \<and> (9::nat) < 2 ^ 160 \<and> (10000::nat) < 2 ^ 256
   \<and> (1762041600::nat) < 2 ^ 256
   \<and> packedData 84532 7 9 10000 1762041600 [1, 2, 3] =
       Inr (be_bytes 32 84532 @ be_bytes 20 7 @ be_bytes 20 9 @ be_bytes 32 10000
            @ be_bytes 32 1762041600 @ [1, 2, 3])
   \<and> packedData 84532 7 9 10000 1762041600 [1, 2, 4]
       \<noteq> packedData 84532 7 9 10000 1762041600 [1, 2, 3]
   \<and> packedData 84532 7 9 10000 1762041601 [1, 2, 3]
       \<noteq> packedData 84532 7 9 10000 1762041600 [1, 2, 3]"
proof -
  have h: "(84532::nat) < 2 ^ 256" "(7::nat) < 2 ^ 160" "(9::nat) < 2 ^ 160"
    "(10000::nat) < 2 ^ 256" "(1762041600::nat) < 2 ^ 256"
    by simp_all
  from attestation_preimage_layout_injective [OF h, of "[1, 2, 3]" toy_lib]
  have pre: "packedData 84532 7 9 10000 1762041600 [1, 2, 3] =
       Inr (be_bytes 32 84532 @ be_bytes 20 7 @ be_bytes 20 9 @ be_bytes 32 10000
            @ be_bytes 32 1762041600 @ [1, 2, 3])"
    and inj: "\<And>c' a' t' p' n' b'. packedData c' a' t' p' n' b'
              = packedData 84532 7 9 10000 1762041600 [1, 2, 3]
            \<Longrightarrow> n' = 1762041600 \<and> b' = [1, 2, 3]"
    by blast+
  have "packedData 84532 7 9 10000 1762041600 [1, 2, 4]
       \<noteq> packedData 84532 7 9 10000 1762041600 [1, 2, 3]"
    using inj [of 84532 7 9 10000 1762041600 "[1, 2, 4]"] by auto
  moreover have "packedData 84532 7 9 10000 1762041601 [1, 2, 3]
       \<noteq> packedData 84532 7 9 10000 1762041600 [1, 2, 3]"
    using inj [of 84532 7 9 10000 1762041601 "[1, 2, 3]"] by auto
  ultimately show ?thesis using h pre by blast
qed

section \<open>Properties of the signing step\<close>

lemma decimal_32: "decimal 32 = ''32''"
  by (simp add: decimal.simps)

lemma hashMessage_32: "length raw = 32 \<Longrightarrow> hashMessage L raw = ethSignedHash L raw"
  by (simp add: hashMessage_def ethSignedHash_def messagePrefix_def decimal_32)

lemma replicate_4: "replicate 4 x = [x, x, x, x]"
  by (simp add: eval_nat_numeral)

lemma toy_keccak256_length: "length (keccak256 toy_lib m) = 32"
  by (simp add: toy_lib_def)

lemma toy_double_prefix:
  "ethSignedHash toy_lib (ethSignedHash toy_lib (replicate 32 0))
     \<noteq> ethSignedHash toy_lib (replicate 32 0)"
  by (simp add: ethSignedHash_def toy_lib_def messagePrefix_def toBytes_def replicate_4)

text \<open>
  C2. What each script signs, for a 32-byte attestation hash and a 32-byte
  \<^verbatim>\<open>keccak256\<close>. The viem and the hardhat script sign the hash under the personal-message
  prefix, applied once. The demo script applies the prefix itself and then hands the
  result to \<^verbatim>\<open>signMessage\<close>, which applies the prefix again: it signs the prefixed
  hash of the prefixed hash, so its signed bytes are not those of the other two.
\<close>

theorem signed_digest_of_each_script:
  assumes "length h = 32" and "\<forall>m. length (keccak256 L m) = 32"
  shows "signed_digest_viem L h = ethSignedHash L h
    \<and> signed_digest_hardhat L h = ethSignedHash L h
    \<and> signed_digest_demo L h = ethSignedHash L (ethSignedHash L h)
    \<and> signature_viem L k h = ecdsa_sign L k (ethSignedHash L h)
    \<and> signature_hardhat L k h = ecdsa_sign L k (ethSignedHash L h)
    \<and> signature_demo L k h = ecdsa_sign L k (ethSignedHash L (ethSignedHash L h))"
proof -
  have "length (ethSignedHash L h) = 32"
    using assms(2) by (simp add: ethSignedHash_def)
  then have "hashMessage L (ethSignedHash L h) = ethSignedHash L (ethSignedHash L h)"
    by (rule hashMessage_32)
  moreover have "hashMessage L h = ethSignedHash L h"
    using assms(1) by (rule hashMessage_32)
  ultimately show ?thesis
    by (simp add: signed_digest_viem_def signed_digest_hardhat_def signed_digest_demo_def
        signature_viem_def signature_hardhat_def signature_demo_def signMessage_def)
qed

theorem signed_digest_of_each_script_witness:
  "length (replicate 32 (0::byte)) = 32 \<and> (\<forall>m. length (keccak256 toy_lib m) = 32)
   \<and> signed_digest_hardhat toy_lib (replicate 32 0) = signed_digest_viem toy_lib (replicate 32 0)
   \<and> signed_digest_demo toy_lib (replicate 32 0) \<noteq> signed_digest_viem toy_lib (replicate 32 0)"
proof -
  have h: "length (replicate 32 (0::byte)) = 32" by simp
  have k: "\<forall>m. length (keccak256 toy_lib m) = 32" by (simp add: toy_keccak256_length)
  show ?thesis
    using h k signed_digest_of_each_script [OF h k] toy_double_prefix by simp
qed

section \<open>Properties of the execution batch\<close>

lemma executions_spec:
  "executions L cfg b = spec_batch L (MockToken cfg) b (ALLOCATION_PLAN cfg)"
  by (simp add: executions_def spec_batch_def ALLOCATION_PLAN_def approve_call_def
      deposit_call_def encodeFunctionData_def share_amount_def amountZyFAI_def amountGiza_def
      amountCod3x_def)






section \<open>Properties of the runs\<close>

lemma trace_emit [simp]: "trace (emit a s) = trace s @ [a]"
  by (simp add: emit_def)

lemma trace_readBalance [simp]: "trace (snd (readBalance w s)) = trace s"
  by (simp add: readBalance_def)

lemma trace_writeLedger [simp]: "trace (snd (writeLedger r d s)) = trace s"
  by (simp add: writeLedger_def split: sum.splits)

lemma trace_updateDeploymentsJson_demo [simp]:
  "trace (snd (updateDeploymentsJson_demo date a s)) = trace s"
  by (simp add: updateDeploymentsJson_demo_def split: json_file.splits)

lemma trace_updateDeploymentsJson_hardhat [simp]:
  "trace (snd (updateDeploymentsJson_hardhat date a s)) = trace s"
  by (simp add: updateDeploymentsJson_hardhat_def split: json_file.splits)

lemma MockToken_in_range:
  "MockToken DEPLOYED_ADDRESSES < 2 ^ 160" "MockToken DEPLOYED_ADDRESSES_hardhat < 2 ^ 160"
  by (simp_all add: DEPLOYED_ADDRESSES_def DEPLOYED_ADDRESSES_hardhat_def)

lemma example_world_simps [simp]:
  "PRIVATE_KEY example_world = Some [1]" "chain_id example_world = 84532"
  "preComputed example_world = (7, [2], [3])" "existingCode example_world = []"
  "balanceOf example_world k = 10000000000" "clock example_world = 1762041600"
  "receipt_success example_world = True" "deployedCode example_world = [4]"
  "today example_world = ''2025-11-02''"
  by (simp_all add: example_world_def)

lemma initial_state_simps [simp]:
  "reads initial_state = 0" "trace initial_state = []" "deployments_json initial_state = NoFile"
  by (simp_all add: initial_state_def)

lemma attestationHash_explicit:
  assumes "c < 2 ^ 256" "a < 2 ^ 160" "t < 2 ^ 160" "p < 2 ^ 256" "n < 2 ^ 256"
  shows "attestationHash L c a t p n b =
     Inr (keccak256 L (be_bytes 32 c @ be_bytes 20 a @ be_bytes 20 t @ be_bytes 32 p
                       @ be_bytes 32 n @ b))"
  using assms packedData_Inr [THEN iffD2, of c a t p n _ b]
  by (simp add: attestationHash_def del: be_bytes.simps)

lemma ethSignedHash_explicit:
  "ethSignedHash L d =
     keccak256 L (toBytes (CHR 0x19 # ''Ethereum Signed Message:'' @ [CHR 0x0A] @ ''32'') @ d)"
  by (simp add: ethSignedHash_def messagePrefix_def)

lemma signatures_explicit:
  assumes "\<forall>m. length (keccak256 L m) = 32"
  shows "signature_viem L key (keccak256 L m) = ecdsa_sign L key (ethSignedHash L (keccak256 L m))"
    and "signature_demo L key h = ecdsa_sign L key (ethSignedHash L (ethSignedHash L h))"
    and "signature_hardhat L key h = ecdsa_sign L key (ethSignedHash L h)"
proof -
  have k: "length (keccak256 L x) = 32" for x using assms by simp
  show "signature_viem L key (keccak256 L m) = ecdsa_sign L key (ethSignedHash L (keccak256 L m))"
    by (simp add: signature_viem_def signMessage_def hashMessage_32 [OF k])
  have "length (ethSignedHash L h) = 32" by (simp add: ethSignedHash_def k)
  then show "signature_demo L key h = ecdsa_sign L key (ethSignedHash L (ethSignedHash L h))"
    by (simp add: signature_demo_def signMessage_def hashMessage_32)
  show "signature_hardhat L key h = ecdsa_sign L key (ethSignedHash L h)"
    by (simp add: signature_hardhat_def)
qed

lemma executionBatch_explicit:
  "executionBatch L (executions L cfg bal) =
     encodeAbiParameters L
       [AArray (map (\<lambda>e. ATuple [AAddress (target e), AUint256 (ether_value e), ABytes (callData e)])
                    (spec_batch L (MockToken cfg) bal (ALLOCATION_PLAN cfg)))]"
  by (simp only: executionBatch_def executions_spec)

lemma calls_explicit:
  "calls L cfg initData salt a batch cap n sg =
     [ \<lparr> call_target = BiconomyMetaFactory cfg, allowFailure = False,
         call_callData = take 4 (keccak256 L (toBytes ''deployWithFactory(address,bytes)''))
           @ encodeAbiParameters L
               [AAddress (NexusAccountFactory cfg),
                ABytes (take 4 (keccak256 L (toBytes ''createAccount(bytes,bytes32)''))
                        @ encodeAbiParameters L [ABytes initData, ABytes32 salt])] \<rparr>,
       \<lparr> call_target = BondModule cfg, allowFailure = False,
         call_callData =
           take 4 (keccak256 L (toBytes
             ''executeBatchWithAttestation(address,bytes,address,uint256,uint256,bytes)''))
           @ encodeAbiParameters L
               [AAddress a, ABytes batch, AAddress (MockToken cfg), AUint256 cap, AUint256 n,
                ABytes sg] \<rparr> ]"
  by (simp add: calls_def functionSelector_def encodedFactoryData_def encodedBatchExecution_def)

lemma poll_balance_first_positive:
  assumes "\<forall>j < k. balanceOf w (reads s + j) = 0" and "0 < balanceOf w (reads s + k)"
    and "i + k < 10"
  shows "poll_balance w i b s =
     (balanceOf w (reads s + k),
      s\<lparr>reads := reads s + Suc k, trace := trace s @ replicate k (Sleep 2000)\<rparr>)"
  using assms
proof (induction k arbitrary: i b s)
  case 0
  then show ?case
    by (simp add: poll_balance.simps [of w i] readBalance_def)
next
  case (Suc k)
  let ?s' = "emit (Sleep 2000) (s\<lparr>reads := Suc (reads s)\<rparr>)"
  from Suc.prems(1) have z: "balanceOf w (reads s) = 0" by (metis add.right_neutral zero_less_Suc)
  have r: "reads ?s' = Suc (reads s)" by (simp add: emit_def)
  have a: "\<forall>j < k. balanceOf w (reads ?s' + j) = 0"
    using Suc.prems(1) r by (metis Suc_less_eq add_Suc_shift)
  have p: "0 < balanceOf w (reads ?s' + k)" using Suc.prems(2) r by simp
  have i: "Suc i + k < 10" using Suc.prems(3) by simp
  from Suc.IH [OF a p i, of "balanceOf w (reads s)"] z Suc.prems(3)
  show ?case
    by (simp add: poll_balance.simps [of w i] readBalance_def emit_def replicate_append_same)
qed

lemma plan_total: "sum_list (map snd (ALLOCATION_PLAN cfg)) = 10000"
  using ALLOCATION_PLAN_shares [of cfg] by (simp add: plan_shares_def)

lemma deploy_explicit:
  assumes "a < 2 ^ 160" and "MockToken cfg < 2 ^ 160" and "clock w < 2 ^ 256"
    and "chain_id w < 2 ^ 256" and "\<forall>m. length (keccak256 L m) = 32"
  shows
    "let batch = encodeAbiParameters L
           [AArray (map (\<lambda>e. ATuple [AAddress (target e), AUint256 (ether_value e),
                                      ABytes (callData e)])
                        (spec_batch L (MockToken cfg) (balanceOf w (reads s))
                           (ALLOCATION_PLAN cfg)))];
         digest = (\<lambda>chain. keccak256 L
           (be_bytes 32 chain @ be_bytes 20 a @ be_bytes 20 (MockToken cfg) @ be_bytes 32 10000
            @ be_bytes 32 (clock w) @ batch));
         prefixed = (\<lambda>d. keccak256 L
           (toBytes (CHR 0x19 # ''Ethereum Signed Message:'' @ [CHR 0x0A] @ ''32'') @ d));
         deploy = \<lparr> call_target = BiconomyMetaFactory cfg, allowFailure = False,
           call_callData = take 4 (keccak256 L (toBytes ''deployWithFactory(address,bytes)''))
             @ encodeAbiParameters L
                 [AAddress (NexusAccountFactory cfg),
                  ABytes (take 4 (keccak256 L (toBytes ''createAccount(bytes,bytes32)''))
                          @ encodeAbiParameters L [ABytes i, ABytes32 sl])] \<rparr>;
         attested = (\<lambda>sg. \<lparr> call_target = BondModule cfg, allowFailure = False,
           call_callData =
             take 4 (keccak256 L (toBytes
               ''executeBatchWithAttestation(address,bytes,address,uint256,uint256,bytes)''))
             @ encodeAbiParameters L
                 [AAddress a, ABytes batch, AAddress (MockToken cfg), AUint256 10000,
                  AUint256 (clock w), ABytes sg] \<rparr>)
     in attestationHash L 84532 a (MockToken cfg) 10000 (clock w) batch = Inr (digest 84532)
      \<and> attestationHash L (chain_id w) a (MockToken cfg) 10000 (clock w) batch
          = Inr (digest (chain_id w))
      \<and> deployAccountAndExecuteDistribution_viem L cfg key w a i sl s =
          (if receipt_success w then Inr () else Inl TransactionFailed,
           s\<lparr>reads := Suc (reads s),
             trace := trace s @ [Aggregate3 MULTICALL3
               [deploy, attested (ecdsa_sign L key (prefixed (digest 84532)))]]\<rparr>)
      \<and> deployAccountAndExecuteDistribution_demo L cfg key w a i sl s =
          (if deployedCode w = [] then Inl DeploymentFailed else Inr (),
           s\<lparr>reads := Suc (reads s),
             trace := trace s @ [Aggregate3 MULTICALL3
               [deploy,
                attested (ecdsa_sign L key (prefixed (prefixed (digest (chain_id w)))))]]\<rparr>)
      \<and> deployAccountAndExecuteDistribution_hardhat L cfg key w a i sl s =
          (if \<not> receipt_success w then Inl TransactionFailed
           else if deployedCode w = [] then Inl DeploymentFailed else Inr (),
           s\<lparr>reads := Suc (reads s),
             trace := trace s @ [Aggregate3 MULTICALL3
               [deploy, attested (ecdsa_sign L key (prefixed (digest (chain_id w))))]]\<rparr>)
      \<and> sum_list (map snd (ALLOCATION_PLAN cfg)) = 10000"
proof -
  have cap: "TOTAL_PERCENTAGE = 10000" by (simp add: TOTAL_PERCENTAGE_def)
  have c1: "(10000::nat) < 2 ^ 256" and c2: "(84532::nat) < 2 ^ 256" by simp_all
  note hv = attestationHash_explicit [OF c2 assms(1,2) c1 assms(3), of L]
  note hn = attestationHash_explicit [OF assms(4) assms(1,2) c1 assms(3), of L]
  note sg = signatures_explicit [OF assms(5)]
  show ?thesis
    unfolding Let_def
    by (intro conjI)
      (simp_all add: deployAccountAndExecuteDistribution_viem_def
        deployAccountAndExecuteDistribution_demo_def
        deployAccountAndExecuteDistribution_hardhat_def readBalance_def Let_def
        baseSepolia_id_def cap executionBatch_explicit hv hn sg ethSignedHash_explicit
        calls_explicit emit_def plan_total del: be_bytes.simps)
qed

text \<open>
  C10. In each script, the account, the token, the cap, the nonce and the batch bytes that
  make the attestation digest are the very arguments of the \<^verbatim>\<open>executeBatchWithAttestation\<close>
  sub-call that the script submits, and the signature argument is the script's signature
  over that digest; the cap is 10000, the sum of the plan's shares. The digest's pre-image,
  the two sub-calls and the outcome of the step are written out.
\<close>

theorem attestation_binds_executed_call:
  assumes "a < 2 ^ 160" and "MockToken cfg < 2 ^ 160" and "clock w < 2 ^ 256"
    and "chain_id w < 2 ^ 256" and "\<forall>m. length (keccak256 L m) = 32"
  shows
    "let batch = encodeAbiParameters L
           [AArray (map (\<lambda>e. ATuple [AAddress (target e), AUint256 (ether_value e),
                                      ABytes (callData e)])
                        (spec_batch L (MockToken cfg) (balanceOf w (reads s))
                           (ALLOCATION_PLAN cfg)))];
         digest = (\<lambda>chain. keccak256 L
           (be_bytes 32 chain @ be_bytes 20 a @ be_bytes 20 (MockToken cfg) @ be_bytes 32 10000
            @ be_bytes 32 (clock w) @ batch));
         prefixed = (\<lambda>d. keccak256 L
           (toBytes (CHR 0x19 # ''Ethereum Signed Message:'' @ [CHR 0x0A] @ ''32'') @ d));
         deploy = \<lparr> call_target = BiconomyMetaFactory cfg, allowFailure = False,
           call_callData = take 4 (keccak256 L (toBytes ''deployWithFactory(address,bytes)''))
             @ encodeAbiParameters L
                 [AAddress (NexusAccountFactory cfg),
                  ABytes (take 4 (keccak256 L (toBytes ''createAccount(bytes,bytes32)''))
                          @ encodeAbiParameters L [ABytes i, ABytes32 sl])] \<rparr>;
         attested = (\<lambda>sg. \<lparr> call_target = BondModule cfg, allowFailure = False,
           call_callData =
             take 4 (keccak256 L (toBytes
               ''executeBatchWithAttestation(address,bytes,address,uint256,uint256,bytes)''))
             @ encodeAbiParameters L
                 [AAddress a, ABytes batch, AAddress (MockToken cfg), AUint256 10000,
                  AUint256 (clock w), ABytes sg] \<rparr>)
     in attestationHash L 84532 a (MockToken cfg) 10000 (clock w) batch = Inr (digest 84532)
      \<and> attestationHash L (chain_id w) a (MockToken cfg) 10000 (clock w) batch
          = Inr (digest (chain_id w))
      \<and> deployAccountAndExecuteDistribution_viem L cfg key w a i sl s =
          (if receipt_success w then Inr () else Inl TransactionFailed,
           s\<lparr>reads := Suc (reads s),
             trace := trace s @ [Aggregate3 MULTICALL3
               [deploy, attested (ecdsa_sign L key (prefixed (digest 84532)))]]\<rparr>)
      \<and> deployAccountAndExecuteDistribution_demo L cfg key w a i sl s =
          (if deployedCode w = [] then Inl DeploymentFailed else Inr (),
           s\<lparr>reads := Suc (reads s),
             trace := trace s @ [Aggregate3 MULTICALL3
               [deploy,
                attested (ecdsa_sign L key (prefixed (prefixed (digest (chain_id w)))))]]\<rparr>)
      \<and> deployAccountAndExecuteDistribution_hardhat L cfg key w a i sl s =
          (if \<not> receipt_success w then Inl TransactionFailed
           else if deployedCode w = [] then Inl DeploymentFailed else Inr (),
           s\<lparr>reads := Suc (reads s),
             trace := trace s @ [Aggregate3 MULTICALL3
               [deploy, attested (ecdsa_sign L key (prefixed (digest (chain_id w))))]]\<rparr>)
      \<and> sum_list (map snd (ALLOCATION_PLAN cfg)) = 10000"
  using assms by (rule deploy_explicit)

theorem attestation_binds_executed_call_witness:
  "(7::nat) < 2 ^ 160 \<and> MockToken DEPLOYED_ADDRESSES < 2 ^ 160
   \<and> clock example_world < 2 ^ 256 \<and> chain_id example_world < 2 ^ 256
   \<and> (\<forall>m. length (keccak256 toy_lib m) = 32)
   \<and> (let batch = encodeAbiParameters toy_lib
           [AArray (map (\<lambda>e. ATuple [AAddress (target e), AUint256 (ether_value e),
                                      ABytes (callData e)])
                        (spec_batch toy_lib (MockToken DEPLOYED_ADDRESSES) (balanceOf example_world (reads initial_state))
                           (ALLOCATION_PLAN DEPLOYED_ADDRESSES)))];
         digest = (\<lambda>chain. keccak256 toy_lib
           (be_bytes 32 chain @ be_bytes 20 7 @ be_bytes 20 (MockToken DEPLOYED_ADDRESSES) @ be_bytes 32 10000
            @ be_bytes 32 (clock example_world) @ batch));
         prefixed = (\<lambda>d. keccak256 toy_lib
           (toBytes (CHR 0x19 # ''Ethereum Signed Message:'' @ [CHR 0x0A] @ ''32'') @ d));
         deploy = \<lparr> call_target = BiconomyMetaFactory DEPLOYED_ADDRESSES, allowFailure = False,
           call_callData = take 4 (keccak256 toy_lib (toBytes ''deployWithFactory(address,bytes)''))
             @ encodeAbiParameters toy_lib
                 [AAddress (NexusAccountFactory DEPLOYED_ADDRESSES),
                  ABytes (take 4 (keccak256 toy_lib (toBytes ''createAccount(bytes,bytes32)''))
                          @ encodeAbiParameters toy_lib [ABytes [2], ABytes32 [3]])] \<rparr>;
         attested = (\<lambda>sg. \<lparr> call_target = BondModule DEPLOYED_ADDRESSES, allowFailure = False,
           call_callData =
             take 4 (keccak256 toy_lib (toBytes
               ''executeBatchWithAttestation(address,bytes,address,uint256,uint256,bytes)''))
             @ encodeAbiParameters toy_lib
                 [AAddress 7, ABytes batch, AAddress (MockToken DEPLOYED_ADDRESSES), AUint256 10000,
                  AUint256 (clock example_world), ABytes sg] \<rparr>)
     in attestationHash toy_lib 84532 7 (MockToken DEPLOYED_ADDRESSES) 10000 (clock example_world) batch = Inr (digest 84532)
      \<and> attestationHash toy_lib (chain_id example_world) 7 (MockToken DEPLOYED_ADDRESSES) 10000 (clock example_world) batch
          = Inr (digest (chain_id example_world))
      \<and> deployAccountAndExecuteDistribution_viem toy_lib DEPLOYED_ADDRESSES [1] example_world 7 [2] [3] initial_state =
          (if receipt_success example_world then Inr () else Inl TransactionFailed,
           initial_state\<lparr>reads := Suc (reads initial_state),
             trace := trace initial_state @ [Aggregate3 MULTICALL3
               [deploy, attested (ecdsa_sign toy_lib [1] (prefixed (digest 84532)))]]\<rparr>)
      \<and> deployAccountAndExecuteDistribution_demo toy_lib DEPLOYED_ADDRESSES [1] example_world 7 [2] [3] initial_state =
          (if deployedCode example_world = [] then Inl DeploymentFailed else Inr (),
           initial_state\<lparr>reads := Suc (reads initial_state),
             trace := trace initial_state @ [Aggregate3 MULTICALL3
               [deploy,
                attested (ecdsa_sign toy_lib [1] (prefixed (prefixed (digest (chain_id example_world)))))]]\<rparr>)
      \<and> deployAccountAndExecuteDistribution_hardhat toy_lib DEPLOYED_ADDRESSES [1] example_world 7 [2] [3] initial_state =
          (if \<not> receipt_success example_world then Inl TransactionFailed
           else if deployedCode example_world = [] then Inl DeploymentFailed else Inr (),
           initial_state\<lparr>reads := Suc (reads initial_state),
             trace := trace initial_state @ [Aggregate3 MULTICALL3
               [deploy, attested (ecdsa_sign toy_lib [1] (prefixed (digest (chain_id example_world))))]]\<rparr>)
      \<and> sum_list (map snd (ALLOCATION_PLAN DEPLOYED_ADDRESSES)) = 10000)"
proof -
  have h1: "(7::nat) < 2 ^ 160" by simp
  have h2: "MockToken DEPLOYED_ADDRESSES < 2 ^ 160" by (rule MockToken_in_range)
  have h3: "clock example_world < 2 ^ 256" "chain_id example_world < 2 ^ 256"
    "\<forall>m. length (keccak256 toy_lib m) = 32"
    by (simp_all add: toy_keccak256_length)
  note h = h1 h2 h3
  from h attestation_binds_executed_call
    [OF h, where key = "[1]" and i = "[2]" and sl = "[3]" and s = initial_state]
  show ?thesis by blast
qed

text \<open>
  C5. A run that finds no code at the account submits one multicall, and it holds exactly
  two sub-calls, both with \<^verbatim>\<open>allowFailure = false\<close>. The first goes to the meta factory
  and deploys the account through the account factory, \<^verbatim>\<open>createAccount\<close> on the
  initialization payload and the salt. The second goes to the module and is
  \<^verbatim>\<open>executeBatchWithAttestation\<close> on the account, the encoded batch of the plan's
  approve and deposit calls, the token, the cap 10000, the nonce and the script's signature
  over the attestation digest. The trace of each script is given in full: the mint, the
  waits, the multicall. (The viem script is taken where its \<open>k\<close>-th balance read is the
  first that is not zero; the prefix is applied twice in the demo script.)
\<close>

theorem no_code_run_submits_one_multicall:
  assumes "PRIVATE_KEY w = Some key" and "existingCode w = []" and "preComputed w = (a, i, sl)"
    and "a < 2 ^ 160" and "clock w < 2 ^ 256" and "chain_id w < 2 ^ 256"
    and "\<forall>m. length (keccak256 L m) = 32"
  shows
    "let batch = (\<lambda>cfg balance. encodeAbiParameters L
           [AArray (map (\<lambda>e. ATuple [AAddress (target e), AUint256 (ether_value e),
                                      ABytes (callData e)])
                        (spec_batch L (MockToken cfg) balance (ALLOCATION_PLAN cfg)))]);
         digest = (\<lambda>cfg chain balance. keccak256 L
           (be_bytes 32 chain @ be_bytes 20 a @ be_bytes 20 (MockToken cfg) @ be_bytes 32 10000
            @ be_bytes 32 (clock w) @ batch cfg balance));
         prefixed = (\<lambda>d. keccak256 L
           (toBytes (CHR 0x19 # ''Ethereum Signed Message:'' @ [CHR 0x0A] @ ''32'') @ d));
         deploy = (\<lambda>cfg. \<lparr> call_target = BiconomyMetaFactory cfg, allowFailure = False,
           call_callData = take 4 (keccak256 L (toBytes ''deployWithFactory(address,bytes)''))
             @ encodeAbiParameters L
                 [AAddress (NexusAccountFactory cfg),
                  ABytes (take 4 (keccak256 L (toBytes ''createAccount(bytes,bytes32)''))
                          @ encodeAbiParameters L [ABytes i, ABytes32 sl])] \<rparr>);
         attested = (\<lambda>cfg balance sg. \<lparr> call_target = BondModule cfg, allowFailure = False,
           call_callData =
             take 4 (keccak256 L (toBytes
               ''executeBatchWithAttestation(address,bytes,address,uint256,uint256,bytes)''))
             @ encodeAbiParameters L
                 [AAddress a, ABytes (batch cfg balance), AAddress (MockToken cfg),
                  AUint256 10000, AUint256 (clock w), ABytes sg] \<rparr>)
     in trace (snd (main_demo L w s)) =
          trace s @
            [Mint (MockToken DEPLOYED_ADDRESSES) a 10000000000, Sleep 1000,
             Aggregate3 MULTICALL3
               [deploy DEPLOYED_ADDRESSES,
                attested DEPLOYED_ADDRESSES (balanceOf w (Suc (reads s)))
                  (ecdsa_sign L key (prefixed (prefixed
                     (digest DEPLOYED_ADDRESSES (chain_id w) (balanceOf w (Suc (reads s)))))))]]
      \<and> trace (snd (main_hardhat L w s)) =
          trace s @
            [Mint (MockToken DEPLOYED_ADDRESSES_hardhat) a 10000000000,
             Aggregate3 MULTICALL3
               [deploy DEPLOYED_ADDRESSES_hardhat,
                attested DEPLOYED_ADDRESSES_hardhat (balanceOf w (Suc (reads s)))
                  (ecdsa_sign L key (prefixed
                     (digest DEPLOYED_ADDRESSES_hardhat (chain_id w)
                        (balanceOf w (Suc (reads s))))))]]
      \<and> (\<forall>k < 10. (\<forall>j < k. balanceOf w (reads s + j) = 0) \<and> 0 < balanceOf w (reads s + k)
            \<longrightarrow>
            trace (snd (main_viem L w s)) =
              trace s @
                [Mint (MockToken DEPLOYED_ADDRESSES) a 10000000000, Sleep 3000]
                @ replicate k (Sleep 2000) @
                [Aggregate3 MULTICALL3
                   [deploy DEPLOYED_ADDRESSES,
                    attested DEPLOYED_ADDRESSES (balanceOf w (reads s + Suc k))
                      (ecdsa_sign L key (prefixed
                         (digest DEPLOYED_ADDRESSES 84532 (balanceOf w (reads s + Suc k)))))]])"
proof -
  note d = deploy_explicit [OF assms(4) MockToken_in_range(1) assms(5,6,7), unfolded Let_def]
  note dh = deploy_explicit [OF assms(4) MockToken_in_range(2) assms(5,6,7), unfolded Let_def]
  note demo = d [THEN conjunct2, THEN conjunct2, THEN conjunct2, THEN conjunct1]
  note viem = d [THEN conjunct2, THEN conjunct2, THEN conjunct1]
  note hardhat = dh [THEN conjunct2, THEN conjunct2, THEN conjunct2, THEN conjunct2, THEN conjunct1]
  have viem_run: "trace (snd (main_viem L w s)) =
      trace s @ [Mint (MockToken DEPLOYED_ADDRESSES) a 10000000000, Sleep 3000]
        @ replicate k (Sleep 2000) @
        [Aggregate3 MULTICALL3
           [\<lparr> call_target = BiconomyMetaFactory DEPLOYED_ADDRESSES, allowFailure = False,
              call_callData = take 4 (keccak256 L (toBytes ''deployWithFactory(address,bytes)''))
                @ encodeAbiParameters L
                   [AAddress (NexusAccountFactory DEPLOYED_ADDRESSES),
                    ABytes (take 4 (keccak256 L (toBytes ''createAccount(bytes,bytes32)''))
                            @ encodeAbiParameters L [ABytes i, ABytes32 sl])] \<rparr>,
            \<lparr> call_target = BondModule DEPLOYED_ADDRESSES, allowFailure = False,
              call_callData =
                take 4 (keccak256 L (toBytes
                  ''executeBatchWithAttestation(address,bytes,address,uint256,uint256,bytes)''))
                @ encodeAbiParameters L
                   [AAddress a,
                    ABytes (encodeAbiParameters L
                      [AArray (map (\<lambda>e. ATuple [AAddress (target e), AUint256 (ether_value e),
                                                 ABytes (callData e)])
                         (spec_batch L (MockToken DEPLOYED_ADDRESSES)
                            (balanceOf w (reads s + Suc k)) (ALLOCATION_PLAN DEPLOYED_ADDRESSES)))]),
                    AAddress (MockToken DEPLOYED_ADDRESSES), AUint256 10000, AUint256 (clock w),
                    ABytes (ecdsa_sign L key (keccak256 L
                      (toBytes (CHR 0x19 # ''Ethereum Signed Message:'' @ [CHR 0x0A] @ ''32'')
                       @ keccak256 L
                          (be_bytes 32 84532 @ be_bytes 20 a
                           @ be_bytes 20 (MockToken DEPLOYED_ADDRESSES) @ be_bytes 32 10000
                           @ be_bytes 32 (clock w)
                           @ encodeAbiParameters L
                              [AArray (map (\<lambda>e. ATuple [AAddress (target e),
                                    AUint256 (ether_value e), ABytes (callData e)])
                                 (spec_batch L (MockToken DEPLOYED_ADDRESSES)
                                    (balanceOf w (reads s + Suc k))
                                    (ALLOCATION_PLAN DEPLOYED_ADDRESSES)))]))))] \<rparr>]]"
    if k: "k < 10" "\<forall>j < k. balanceOf w (reads s + j) = 0" "0 < balanceOf w (reads s + k)" for k
  proof -
    let ?s2 = "emit (Sleep 3000)
                 (emit (Mint (MockToken DEPLOYED_ADDRESSES) a INITIAL_TOKEN_BALANCE) s)"
    have r: "reads ?s2 = reads s" by (simp add: emit_def)
    have "poll_balance w 0 0 ?s2 =
        (balanceOf w (reads ?s2 + k),
         ?s2\<lparr>reads := reads ?s2 + Suc k, trace := trace ?s2 @ replicate k (Sleep 2000)\<rparr>)"
      by (rule poll_balance_first_positive) (use k r in simp_all)
    then show ?thesis
      using assms(1-3) k(3)
      by (simp add: main_viem_def mintTokensToAccount_viem_def Let_def emit_def
          INITIAL_TOKEN_BALANCE_def viem del: be_bytes.simps)
  qed
  show ?thesis
    unfolding Let_def
  proof (intro conjI allI impI, goal_cases)
    case 1
    show ?case
      using assms(1-3)
      by (simp add: main_demo_def mintTokensToAccount_demo_def readBalance_def emit_def Let_def
          INITIAL_TOKEN_BALANCE_def demo del: be_bytes.simps)
  next
    case 2
    show ?case
      using assms(1-3)
      by (simp add: main_hardhat_def mintTokensToAccount_hardhat_def readBalance_def emit_def
          Let_def INITIAL_TOKEN_BALANCE_def hardhat del: be_bytes.simps)
  next
    case (3 k)
    then show ?case using viem_run [of k] by blast
  qed
qed

theorem no_code_run_submits_one_multicall_witness:
  "PRIVATE_KEY example_world = Some [1] \<and> existingCode example_world = []
   \<and> preComputed example_world = (7, [2], [3]) \<and> (7::nat) < 2 ^ 160
   \<and> clock example_world < 2 ^ 256 \<and> chain_id example_world < 2 ^ 256
   \<and> (\<forall>m. length (keccak256 toy_lib m) = 32)
   \<and> (let batch = (\<lambda>cfg balance. encodeAbiParameters toy_lib
           [AArray (map (\<lambda>e. ATuple [AAddress (target e), AUint256 (ether_value e),
                                      ABytes (callData e)])
                        (spec_batch toy_lib (MockToken cfg) balance (ALLOCATION_PLAN cfg)))]);
         digest = (\<lambda>cfg chain balance. keccak256 toy_lib
           (be_bytes 32 chain @ be_bytes 20 7 @ be_bytes 20 (MockToken cfg) @ be_bytes 32 10000
            @ be_bytes 32 (clock example_world) @ batch cfg balance));
         prefixed = (\<lambda>d. keccak256 toy_lib
           (toBytes (CHR 0x19 # ''Ethereum Signed Message:'' @ [CHR 0x0A] @ ''32'') @ d));
         deploy = (\<lambda>cfg. \<lparr> call_target = BiconomyMetaFactory cfg, allowFailure = False,
           call_callData = take 4 (keccak256 toy_lib (toBytes ''deployWithFactory(address,bytes)''))
             @ encodeAbiParameters toy_lib
                 [AAddress (NexusAccountFactory cfg),
                  ABytes (take 4 (keccak256 toy_lib (toBytes ''createAccount(bytes,bytes32)''))
                          @ encodeAbiParameters toy_lib [ABytes [2], ABytes32 [3]])] \<rparr>);
         attested = (\<lambda>cfg balance sg. \<lparr> call_target = BondModule cfg, allowFailure = False,
           call_callData =
             take 4 (keccak256 toy_lib (toBytes
               ''executeBatchWithAttestation(address,bytes,address,uint256,uint256,bytes)''))
             @ encodeAbiParameters toy_lib
                 [AAddress 7, ABytes (batch cfg balance), AAddress (MockToken cfg),
                  AUint256 10000, AUint256 (clock example_world), ABytes sg] \<rparr>)
     in trace (snd (main_demo toy_lib example_world initial_state)) =
          trace initial_state @
            [Mint (MockToken DEPLOYED_ADDRESSES) 7 10000000000, Sleep 1000,
             Aggregate3 MULTICALL3
               [deploy DEPLOYED_ADDRESSES,
                attested DEPLOYED_ADDRESSES (balanceOf example_world (Suc (reads initial_state)))
                  (ecdsa_sign toy_lib [1] (prefixed (prefixed
                     (digest DEPLOYED_ADDRESSES (chain_id example_world) (balanceOf example_world (Suc (reads initial_state)))))))]]
      \<and> trace (snd (main_hardhat toy_lib example_world initial_state)) =
          trace initial_state @
            [Mint (MockToken DEPLOYED_ADDRESSES_hardhat) 7 10000000000,
             Aggregate3 MULTICALL3
               [deploy DEPLOYED_ADDRESSES_hardhat,
                attested DEPLOYED_ADDRESSES_hardhat (balanceOf example_world (Suc (reads initial_state)))
                  (ecdsa_sign toy_lib [1] (prefixed
                     (digest DEPLOYED_ADDRESSES_hardhat (chain_id example_world)
                        (balanceOf example_world (Suc (reads initial_state))))))]]
      \<and> (0::nat) < 10 \<and> 0 < balanceOf example_world (reads initial_state + 0)
      \<and> trace (snd (main_viem toy_lib example_world initial_state)) =
              trace initial_state @
                [Mint (MockToken DEPLOYED_ADDRESSES) 7 10000000000, Sleep 3000]
                @ replicate 0 (Sleep 2000) @
                [Aggregate3 MULTICALL3
                   [deploy DEPLOYED_ADDRESSES,
                    attested DEPLOYED_ADDRESSES (balanceOf example_world (reads initial_state + Suc 0))
                      (ecdsa_sign toy_lib [1] (prefixed
                         (digest DEPLOYED_ADDRESSES 84532 (balanceOf example_world (reads initial_state + Suc 0)))))]])"
proof -
  have h: "PRIVATE_KEY example_world = Some [1]" "existingCode example_world = []"
    "preComputed example_world = (7, [2], [3])" "(7::nat) < 2 ^ 160"
    "clock example_world < 2 ^ 256" "chain_id example_world < 2 ^ 256"
    "\<forall>m. length (keccak256 toy_lib m) = 32"
    by (simp_all add: toy_keccak256_length)
  have p: "(0::nat) < 10" "0 < balanceOf example_world (reads initial_state + 0)"
    "\<forall>j < (0::nat). balanceOf example_world (reads initial_state + j) = 0"
    by simp_all
  note t = no_code_run_submits_one_multicall [OF h, where s = initial_state, unfolded Let_def]
  note c1 = t [THEN conjunct1]
  note c2 = t [THEN conjunct2, THEN conjunct1]
  note c3 = t [THEN conjunct2, THEN conjunct2, rule_format, of 0, OF p(1) conjI [OF p(3) p(2)]]
  show ?thesis
    unfolding Let_def
    by (intro conjI) (rule h p c1 c2 c3)+
qed

section \<open>Properties of the balance confirmation\<close>

lemma stale_world_balance [simp]: "balanceOf stale_world k = 0"
  by (simp add: stale_world_def)

lemma poll_balance_reads_bound:
  "reads (snd (poll_balance w i b s)) \<le> reads s + (10 - i)"
proof (induction w i b s rule: poll_balance.induct)
  case (1 w i balance s)
  show ?case
  proof (cases "i < 10")
    case False
    then show ?thesis by (simp add: poll_balance.simps)
  next
    case True
    show ?thesis
    proof (cases "balanceOf w (reads s) > 0")
      case True
      with \<open>i < 10\<close> show ?thesis
        by (simp add: poll_balance.simps [of w i] readBalance_def)
    next
      case False
      from "1.IH" [OF \<open>i < 10\<close>, of "balanceOf w (reads s)" "s\<lparr>reads := Suc (reads s)\<rparr>"] False
      have "reads (snd (poll_balance w (Suc i) (balanceOf w (reads s))
               (emit (Sleep 2000) (s\<lparr>reads := Suc (reads s)\<rparr>))))
            \<le> reads (emit (Sleep 2000) (s\<lparr>reads := Suc (reads s)\<rparr>)) + (10 - Suc i)"
        by (simp add: readBalance_def)
      with \<open>i < 10\<close> False show ?thesis
        by (simp add: poll_balance.simps [of w i] readBalance_def emit_def)
    qed
  qed
qed

lemma poll_balance_zero_iff:
  "fst (poll_balance w i b s) = 0 \<longleftrightarrow>
     (if i < 10 then (\<forall>k < 10 - i. balanceOf w (reads s + k) = 0) else b = 0)"
proof (induction w i b s rule: poll_balance.induct)
  case (1 w i balance s)
  show ?case
  proof (cases "i < 10")
    case False
    then show ?thesis by (simp add: poll_balance.simps)
  next
    case True
    show ?thesis
    proof (cases "balanceOf w (reads s) > 0")
      case pos: True
      have "\<not> (\<forall>k < 10 - i. balanceOf w (reads s + k) = 0)"
        using pos True by (auto intro: exI [of _ 0])
      with True pos show ?thesis
        by (simp add: poll_balance.simps [of w i] readBalance_def)
    next
      case zero: False
      let ?s' = "emit (Sleep 2000) (s\<lparr>reads := Suc (reads s)\<rparr>)"
      have r: "reads ?s' = Suc (reads s)" by (simp add: emit_def)
      from "1.IH" [OF True, of "balanceOf w (reads s)" "s\<lparr>reads := Suc (reads s)\<rparr>"] zero
      have ih: "fst (poll_balance w (Suc i) (balanceOf w (reads s)) ?s') = 0 \<longleftrightarrow>
          (if Suc i < 10 then (\<forall>k < 10 - Suc i. balanceOf w (reads ?s' + k) = 0)
           else balanceOf w (reads s) = 0)"
        by (simp add: readBalance_def)
      have "(\<forall>k < 10 - i. balanceOf w (reads s + k) = 0) \<longleftrightarrow>
          (if Suc i < 10 then (\<forall>k < 10 - Suc i. balanceOf w (Suc (reads s) + k) = 0)
           else balanceOf w (reads s) = 0)"
      proof (cases "Suc i < 10")
        case True
        have e: "10 - i = Suc (10 - Suc i)" using \<open>i < 10\<close> by simp
        have "(\<forall>k < Suc (10 - Suc i). balanceOf w (reads s + k) = 0) \<longleftrightarrow>
              balanceOf w (reads s + 0) = 0
              \<and> (\<forall>k < 10 - Suc i. balanceOf w (reads s + Suc k) = 0)"
          by (rule All_less_Suc2)
        with zero True e show ?thesis by simp
      next
        case False
        with \<open>i < 10\<close> have "10 - i = Suc 0" by simp
        with False zero show ?thesis by simp
      qed
      with ih r True zero show ?thesis
        by (simp add: poll_balance.simps [of w i] readBalance_def)
    qed
  qed
qed

lemma mint_viem_fails_iff:
  "fst (mintTokensToAccount_viem cfg w a s) = Inl StateSyncError \<longleftrightarrow>
     (\<forall>k < 10. balanceOf w (reads s + k) = 0)"
  using poll_balance_zero_iff [of w 0 0
      "emit (Sleep 3000) (emit (Mint (MockToken cfg) a INITIAL_TOKEN_BALANCE) s)"]
  by (auto simp: mintTokensToAccount_viem_def Let_def emit_def split: prod.splits)

text \<open>
  C7. The balance confirmation after the mint, in a world where the balance still reads
  zero. The viem script polls: ten reads, two seconds apart, then the failure
  \<^verbatim>\<open>Balance still 0 after retries\<close>. The demo and the hardhat script read the balance
  once, to print it, and go on without an error.
\<close>

theorem balance_confirmation_of_each_script:
  "mintTokensToAccount_viem DEPLOYED_ADDRESSES stale_world 7 initial_state =
     (Inl StateSyncError,
      \<lparr> reads = 10,
        trace = [Mint (MockToken DEPLOYED_ADDRESSES) 7 INITIAL_TOKEN_BALANCE, Sleep 3000,
                 Sleep 2000, Sleep 2000, Sleep 2000, Sleep 2000, Sleep 2000,
                 Sleep 2000, Sleep 2000, Sleep 2000, Sleep 2000, Sleep 2000],
        deployments_json = NoFile \<rparr>)
   \<and> mintTokensToAccount_demo DEPLOYED_ADDRESSES stale_world 7 initial_state =
     (Inr (),
      \<lparr> reads = 1,
        trace = [Mint (MockToken DEPLOYED_ADDRESSES) 7 INITIAL_TOKEN_BALANCE, Sleep 1000],
        deployments_json = NoFile \<rparr>)
   \<and> mintTokensToAccount_hardhat DEPLOYED_ADDRESSES_hardhat stale_world 7 initial_state =
     (Inr (),
      \<lparr> reads = 1,
        trace = [Mint (MockToken DEPLOYED_ADDRESSES_hardhat) 7 INITIAL_TOKEN_BALANCE],
        deployments_json = NoFile \<rparr>)"
  by (simp add: mintTokensToAccount_viem_def mintTokensToAccount_demo_def
      mintTokensToAccount_hardhat_def poll_balance.simps readBalance_def emit_def Let_def
      initial_state_def)


section \<open>Properties of the ledger merge\<close>

lemma setProp_container: "setProp obj k v = Inr obj' \<Longrightarrow> container obj'"
  by (cases obj) (auto simp: container_def)

lemma ensure_container: "ensure obj k = Inr obj' \<Longrightarrow> container obj'"
  by (cases obj) (auto simp: ensure_def container_def split: if_splits)

lemma within_container: "within obj k f = Inr obj' \<Longrightarrow> container obj'"
  by (cases obj) (auto simp: within_def container_def split: option.splits sum.splits)

lemma truthy_container: "container c \<Longrightarrow> truthy (Some c)"
  by (cases c) (auto simp: container_def)

lemma within_cases:
  assumes "within obj k f = Inr obj'"
  obtains (array) xs where "obj = JArr xs" "obj' = JArr xs"
  | (object) kvs c c' where "obj = JObj kvs" "map_of kvs k = Some c" "f c = Inr c'"
      "obj' = JObj (AList.update k c' kvs)"
  using assms
  by (cases obj) (auto simp: within_def split: option.splits sum.splits)

lemma setProp_overwrites:
  "setProp c k r1 = Inr c' \<Longrightarrow> setProp c' k r2 = setProp c k r2"
  by (cases c) auto

lemma within_overwrites:
  assumes "within c k f1 = Inr c'" and "\<And>x x'. f1 x = Inr x' \<Longrightarrow> f2 x' = f2 x"
  shows "within c' k f2 = within c k f2"
  using assms(1)
proof (cases rule: within_cases)
  case (array xs)
  then show ?thesis by (simp add: within_def)
next
  case (object kvs x x')
  from assms(2) [OF object(3)] have "f2 x' = f2 x" .
  with object show ?thesis
    by (auto simp: within_def update_conv' split: sum.splits)
qed

lemma within_then_ensure:
  assumes "within obj k f = Inr obj'" and "\<And>c c'. f c = Inr c' \<Longrightarrow> container c'"
  shows "ensure obj' k = Inr obj'"
  using assms(1)
proof (cases rule: within_cases)
  case (array xs)
  then show ?thesis by (simp add: ensure_def)
next
  case (object kvs c c')
  from assms(2) [OF object(3)] have "truthy (Some c')" by (rule truthy_container)
  with object show ?thesis by (simp add: ensure_def update_conv')
qed

lemma within_then_within:
  assumes "within obj k f = Inr obj'" and "\<And>c c'. f c = Inr c' \<Longrightarrow> g c' = Inr c'"
  shows "within obj' k g = Inr obj'"
  using assms(1)
proof (cases rule: within_cases)
  case (array xs)
  then show ?thesis by (simp add: within_def)
next
  case (object kvs c c')
  from assms(2) [OF object(3)] have "g c' = Inr c'" .
  with object show ?thesis by (simp add: within_def update_conv')
qed

text \<open>The four statements of the merge, one after the other.\<close>

lemma mergeBondModule_steps:
  assumes "mergeBondModule r d = Inr d'"
  shows "\<exists>d3.
    within d3 ''networks'' (\<lambda>networks.
          within networks ''baseSepolia'' (\<lambda>baseSepolia.
            within baseSepolia ''modules'' (\<lambda>modules.
              setProp modules ''bondModule'' r))) = Inr d'
    \<and> (\<forall>r2. mergeBondModule r2 d = within d3 ''networks'' (\<lambda>networks.
          within networks ''baseSepolia'' (\<lambda>baseSepolia.
            within baseSepolia ''modules'' (\<lambda>modules.
              setProp modules ''bondModule'' r2))))"
proof -
  from assms obtain d1 d2 d3 where
    s1: "ensure d ''networks'' = Inr d1"
    and s2: "within d1 ''networks'' (\<lambda>networks. ensure networks ''baseSepolia'') = Inr d2"
    and s3: "within d2 ''networks'' (\<lambda>networks.
             within networks ''baseSepolia'' (\<lambda>baseSepolia. ensure baseSepolia ''modules''))
           = Inr d3"
    and s4: "within d3 ''networks'' (\<lambda>networks.
          within networks ''baseSepolia'' (\<lambda>baseSepolia.
            within baseSepolia ''modules'' (\<lambda>modules.
              setProp modules ''bondModule'' r))) = Inr d'"
    unfolding mergeBondModule_def by (auto split: sum.splits)
  show ?thesis
    by (rule exI [of _ d3]) (simp add: s4 mergeBondModule_def s1 s2 s3)
qed

lemma mergeBondModule_last_wins:
  assumes "mergeBondModule r1 d = Inr d'"
  shows "mergeBondModule r2 d' = mergeBondModule r2 d"
proof -
  let ?S = "\<lambda>r. (\<lambda>modules. setProp modules ''bondModule'' r)"
  let ?M = "\<lambda>r. (\<lambda>baseSepolia. within baseSepolia ''modules'' (?S r))"
  let ?B = "\<lambda>r. (\<lambda>networks. within networks ''baseSepolia'' (?M r))"
  from mergeBondModule_steps [OF assms]
  obtain d3 where last: "within d3 ''networks'' (?B r1) = Inr d'"
    and other: "\<And>r2. mergeBondModule r2 d = within d3 ''networks'' (?B r2)"
    by blast
  have e1: "ensure d' ''networks'' = Inr d'"
    by (rule within_then_ensure [OF last]) (rule within_container)
  have e2: "within d' ''networks'' (\<lambda>networks. ensure networks ''baseSepolia'') = Inr d'"
    by (rule within_then_within [OF last], rule within_then_ensure, assumption)
      (rule within_container)
  have e3: "within d' ''networks'' (\<lambda>networks.
             within networks ''baseSepolia'' (\<lambda>baseSepolia. ensure baseSepolia ''modules''))
           = Inr d'"
    by (rule within_then_within [OF last], rule within_then_within, assumption,
        rule within_then_ensure, assumption) (rule setProp_container)
  have "within d' ''networks'' (?B r2) = within d3 ''networks'' (?B r2)"
    by (rule within_overwrites [OF last], rule within_overwrites, assumption,
        rule within_overwrites, assumption) (rule setProp_overwrites)
  then show ?thesis
    by (simp add: mergeBondModule_def [of r2 d'] e1 e2 e3 other)
qed


lemma related_Nil [simp]: "related ks []" "related [] p"
  by (simp_all add: related_def)

lemma related_Cons [simp]: "related (k # ks) (k' # q) \<longleftrightarrow> k' = k \<and> related ks q"
  by (auto simp: related_def)

lemma at_falsy:
  "\<not> truthy (Some c) \<Longrightarrow> at c (k # q) = None"
  by (cases c) auto

lemma ensure_frame:
  assumes "ensure obj k = Inr obj'" and "\<not> related (k # ks) p"
  shows "at obj' p = at obj p"
proof (cases p)
  case Nil
  with assms(2) show ?thesis by simp
next
  case (Cons k' q)
  show ?thesis
  proof (cases obj)
    case (JObj kvs)
    show ?thesis
    proof (cases "truthy (map_of kvs k)")
      case True
      with assms(1) JObj show ?thesis by (simp add: ensure_def)
    next
      case False
      with assms(1) JObj have o': "obj' = JObj (AList.update k (JObj []) kvs)"
        by (simp add: ensure_def)
      show ?thesis
      proof (cases "k' = k")
        case False
        with o' JObj Cons show ?thesis by (simp add: update_conv')
      next
        case True
        with assms(2) Cons obtain x q' where q: "q = x # q'" by (cases q) auto
        have "at obj (k # q) = None"
          using \<open>\<not> truthy (map_of kvs k)\<close> JObj q
          by (cases "map_of kvs k") (auto simp: at_falsy)
        with o' True Cons q show ?thesis by (simp add: update_conv')
      qed
    qed
  qed (use assms(1) in \<open>auto simp: ensure_def\<close>)
qed

lemma setProp_frame:
  assumes "setProp obj k v = Inr obj'" and "\<not> related [k] p"
  shows "at obj' p = at obj p"
proof (cases p)
  case Nil
  with assms(2) show ?thesis by simp
next
  case (Cons k' q)
  with assms(2) have "k' \<noteq> k" by simp
  with assms(1) Cons show ?thesis by (cases obj) (auto simp: update_conv')
qed

lemma within_frame:
  assumes "within obj k f = Inr obj'"
    and "\<And>c c' q. f c = Inr c' \<Longrightarrow> \<not> related ks q \<Longrightarrow> at c' q = at c q"
    and "\<not> related (k # ks) p"
  shows "at obj' p = at obj p"
proof (cases p)
  case Nil
  with assms(3) show ?thesis by simp
next
  case (Cons k' q)
  from assms(1) show ?thesis
  proof (cases rule: within_cases)
    case (array xs)
    then show ?thesis by simp
  next
    case (object kvs c c')
    show ?thesis
    proof (cases "k' = k")
      case False
      with object Cons show ?thesis by (simp add: update_conv')
    next
      case True
      with assms(3) Cons have "\<not> related ks q" by simp
      from assms(2) [OF object(3) this] object True Cons show ?thesis
        by (simp add: update_conv')
    qed
  qed
qed

lemma mergeBondModule_frame:
  assumes "mergeBondModule r d = Inr d'" and "\<not> related ledger_key p"
  shows "at d' p = at d p"
proof -
  from assms(1) obtain d1 d2 d3 where
    s1: "ensure d ''networks'' = Inr d1"
    and s2: "within d1 ''networks'' (\<lambda>networks. ensure networks ''baseSepolia'') = Inr d2"
    and s3: "within d2 ''networks'' (\<lambda>networks.
             within networks ''baseSepolia'' (\<lambda>baseSepolia. ensure baseSepolia ''modules''))
           = Inr d3"
    and s4: "within d3 ''networks'' (\<lambda>networks.
          within networks ''baseSepolia'' (\<lambda>baseSepolia.
            within baseSepolia ''modules'' (\<lambda>modules.
              setProp modules ''bondModule'' r))) = Inr d'"
    unfolding mergeBondModule_def by (auto split: sum.splits)
  from assms(2) have
    p: "\<not> related [''networks'', ''baseSepolia'', ''modules'', ''bondModule''] p"
    by (simp add: ledger_key_def)
  have "at d1 p = at d p"
    by (rule ensure_frame [OF s1 p])
  moreover have "at d2 p = at d1 p"
    by (rule within_frame [OF s2 _ p]) (rule ensure_frame)
  moreover have "at d3 p = at d2 p"
    by (rule within_frame [OF s3 _ p], rule within_frame, assumption)
      (rule ensure_frame)
  moreover have "at d' p = at d3 p"
    by (rule within_frame [OF s4 _ p], rule within_frame, assumption, rule within_frame,
        assumption) (rule setProp_frame)
  ultimately show ?thesis by simp
qed

lemma mergeBondModule_wf:
  assumes "wf_ledger d"
  shows "\<exists>d'. mergeBondModule r d = Inr d' \<and> at d' ledger_key = Some r"
proof -
  from assms obtain kvs where d: "d = JObj kvs"
    by (cases d) (auto simp: wf_ledger_def is_object_def)
  show ?thesis
  proof (cases "map_of kvs ''networks''")
    case None
    with d show ?thesis
      by (simp add: mergeBondModule_def ensure_def within_def update_conv' ledger_key_def)
  next
    case (Some n)
    with assms d obtain ns where n: "n = JObj ns"
      by (cases n) (auto simp: wf_ledger_def is_object_def)
    show ?thesis
    proof (cases "map_of ns ''baseSepolia''")
      case None
      with d Some n show ?thesis
        by (simp add: mergeBondModule_def ensure_def within_def update_conv' ledger_key_def)
    next
      case b: (Some b)
      with assms d Some n obtain bs where bs: "b = JObj bs"
        by (cases b) (auto simp: wf_ledger_def is_object_def)
      show ?thesis
      proof (cases "map_of bs ''modules''")
        case None
        with d Some n b bs show ?thesis
          by (simp add: mergeBondModule_def ensure_def within_def update_conv' ledger_key_def)
      next
        case m: (Some m)
        with assms d Some n b bs obtain ms where ms: "m = JObj ms"
          by (cases m) (auto simp: wf_ledger_def is_object_def)
        with d Some n b bs m show ?thesis
          by (simp add: mergeBondModule_def ensure_def within_def update_conv' ledger_key_def)
      qed
    qed
  qed
qed

lemma hex_digit_inj:
  assumes "i < 16" and "j < 16"
    and "''0123456789abcdef'' ! i = ''0123456789abcdef'' ! j"
  shows "i = j"
proof -
  have "distinct ''0123456789abcdef''" by simp
  moreover have "i < length ''0123456789abcdef''" "j < length ''0123456789abcdef''"
    using assms by simp_all
  ultimately show ?thesis using assms(3) by (simp only: nth_eq_iff_index_eq)
qed

lemma length_hex_digits [simp]: "length (hex_digits n x) = n"
  by (induction n arbitrary: x) auto

lemma hex_digits_inj:
  "x < 16 ^ n \<Longrightarrow> y < 16 ^ n \<Longrightarrow> hex_digits n x = hex_digits n y \<Longrightarrow> x = y"
proof (induction n arbitrary: x y)
  case 0
  then show ?case by simp
next
  case (Suc n)
  from Suc.prems have lt: "x div 16 < 16 ^ n" "y div 16 < 16 ^ n"
    by (simp_all add: less_mult_imp_div_less mult.commute)
  from Suc.prems(3) have "hex_digits n (x div 16) = hex_digits n (y div 16)"
    and b: "''0123456789abcdef'' ! (x mod 16) = ''0123456789abcdef'' ! (y mod 16)"
    by simp_all
  then have "x div 16 = y div 16" using Suc.IH lt by blast
  moreover have "x mod 16 = y mod 16" using b by (intro hex_digit_inj) simp_all
  ultimately show ?case by (metis div_mult_mod_eq)
qed

lemma addressText_inj:
  assumes "a < 2 ^ 160" and "b < 2 ^ 160" and "addressText a = addressText b"
  shows "a = b"
proof -
  have "a < 16 ^ 40" "b < 16 ^ 40" using assms(1,2) by simp_all
  moreover have "hex_digits 40 a = hex_digits 40 b"
    using assms(3) by (simp add: addressText_def del: hex_digits.simps)
  ultimately show ?thesis by (rule hex_digits_inj)
qed

lemma bondModuleRecord_account:
  assumes "a < 2 ^ 160" and "b < 2 ^ 160" and "a \<noteq> b"
  shows "bondModuleRecord cfg date a \<noteq> bondModuleRecord cfg date b"
proof
  assume "bondModuleRecord cfg date a = bondModuleRecord cfg date b"
  then have "addressText a = addressText b"
    by (simp add: bondModuleRecord_def)
  with addressText_inj [OF assms(1,2)] assms(3) show False by blast
qed

lemma bondModuleRecord_date:
  "date \<noteq> date' \<Longrightarrow> bondModuleRecord cfg date a \<noteq> bondModuleRecord cfg date' b"
  by (simp add: bondModuleRecord_def)

lemma writeLedger_wf:
  assumes "wf_ledger d"
  shows "\<exists>d'. writeLedger r d s = (Inr (), s\<lparr>deployments_json := Json d'\<rparr>)
            \<and> at d' ledger_key = Some r"
  using mergeBondModule_wf [OF assms, of r] by (auto simp: writeLedger_def)

lemma wf_ledger_empty: "wf_ledger (JObj [])"
  by (simp add: wf_ledger_def is_object_def)

lemma updateDeploymentsJson_demo_stored:
  assumes "deployments_json s = NoFile \<or> (\<exists>d. deployments_json s = Json d \<and> wf_ledger d)"
  shows "fst (updateDeploymentsJson_demo date a s) = Inr ()
    \<and> ledger_record (snd (updateDeploymentsJson_demo date a s))
        = Some (bondModuleRecord DEPLOYED_ADDRESSES date a)"
  using assms
proof
  assume "deployments_json s = NoFile"
  with writeLedger_wf [OF wf_ledger_empty, of "bondModuleRecord DEPLOYED_ADDRESSES date a" s]
  show ?thesis by (auto simp: updateDeploymentsJson_demo_def ledger_record_def)
next
  assume "\<exists>d. deployments_json s = Json d \<and> wf_ledger d"
  then obtain d where d: "deployments_json s = Json d" "wf_ledger d" by blast
  with writeLedger_wf [OF d(2), of "bondModuleRecord DEPLOYED_ADDRESSES date a" s]
  show ?thesis by (auto simp: updateDeploymentsJson_demo_def ledger_record_def)
qed

lemma updateDeploymentsJson_hardhat_stored:
  assumes "deployments_json s = Json d" and "wf_ledger d"
  shows "fst (updateDeploymentsJson_hardhat date a s) = Inr ()
    \<and> ledger_record (snd (updateDeploymentsJson_hardhat date a s))
        = Some (bondModuleRecord DEPLOYED_ADDRESSES_hardhat date a)"
  using assms writeLedger_wf [OF assms(2), of "bondModuleRecord DEPLOYED_ADDRESSES_hardhat date a" s]
  by (auto simp: updateDeploymentsJson_hardhat_def ledger_record_def)

lemma setProp_succeeds:
  "setProp c k r1 = Inr c' \<Longrightarrow> \<exists>c''. setProp c k r2 = Inr c''"
  by (cases c) auto

lemma within_succeeds:
  assumes "within c k f1 = Inr c'" and "\<And>x x'. f1 x = Inr x' \<Longrightarrow> \<exists>x''. f2 x = Inr x''"
  shows "\<exists>c''. within c k f2 = Inr c''"
  using assms(1)
proof (cases rule: within_cases)
  case (array xs)
  then show ?thesis by (simp add: within_def)
next
  case (object kvs x x')
  from assms(2) [OF object(3)] obtain x'' where "f2 x = Inr x''" by blast
  with object show ?thesis by (simp add: within_def)
qed

lemma mergeBondModule_succeeds:
  assumes "mergeBondModule r1 d = Inr d'"
  shows "\<exists>d''. mergeBondModule r2 d = Inr d''"
proof -
  from mergeBondModule_steps [OF assms]
  obtain d3 where last: "within d3 ''networks'' (\<lambda>networks.
          within networks ''baseSepolia'' (\<lambda>baseSepolia.
            within baseSepolia ''modules'' (\<lambda>modules.
              setProp modules ''bondModule'' r1))) = Inr d'"
    and other: "\<And>r2. mergeBondModule r2 d = within d3 ''networks'' (\<lambda>networks.
          within networks ''baseSepolia'' (\<lambda>baseSepolia.
            within baseSepolia ''modules'' (\<lambda>modules.
              setProp modules ''bondModule'' r2)))"
    by blast
  show ?thesis
    unfolding other
    by (rule within_succeeds [OF last], rule within_succeeds, assumption,
        rule within_succeeds, assumption) (rule setProp_succeeds)
qed

lemma writeLedger_last_wins:
  assumes "writeLedger r1 d s = (Inr (), s1)"
  shows "\<exists>d'. deployments_json s1 = Json d' \<and> writeLedger r2 d' s1 = writeLedger r2 d s"
proof -
  from assms obtain d' where m: "mergeBondModule r1 d = Inr d'"
    and s1: "s1 = s\<lparr>deployments_json := Json d'\<rparr>"
    by (auto simp: writeLedger_def split: sum.splits)
  from mergeBondModule_succeeds [OF m, of r2] obtain d'' where "mergeBondModule r2 d = Inr d''"
    by blast
  with mergeBondModule_last_wins [OF m, of r2] s1 show ?thesis
    by (simp add: writeLedger_def)
qed

lemma updateDeploymentsJson_demo_last_wins:
  assumes "updateDeploymentsJson_demo date a1 s = (Inr (), s1)"
  shows "updateDeploymentsJson_demo date a2 s1 = updateDeploymentsJson_demo date a2 s"
proof (cases "deployments_json s")
  case NoFile
  with assms have w: "writeLedger (bondModuleRecord DEPLOYED_ADDRESSES date a1) (JObj []) s
      = (Inr (), s1)"
    by (simp add: updateDeploymentsJson_demo_def)
  from writeLedger_last_wins [OF w, of "bondModuleRecord DEPLOYED_ADDRESSES date a2"] NoFile
  show ?thesis by (auto simp: updateDeploymentsJson_demo_def)
next
  case NotJson
  with assms show ?thesis by (simp add: updateDeploymentsJson_demo_def)
next
  case (Json d)
  with assms have w: "writeLedger (bondModuleRecord DEPLOYED_ADDRESSES date a1) d s
      = (Inr (), s1)"
    by (simp add: updateDeploymentsJson_demo_def)
  from writeLedger_last_wins [OF w, of "bondModuleRecord DEPLOYED_ADDRESSES date a2"] Json
  show ?thesis by (auto simp: updateDeploymentsJson_demo_def)
qed

lemma updateDeploymentsJson_hardhat_last_wins:
  assumes "updateDeploymentsJson_hardhat date a1 s = (Inr (), s1)"
  shows "updateDeploymentsJson_hardhat date a2 s1 = updateDeploymentsJson_hardhat date a2 s"
proof (cases "deployments_json s")
  case NoFile
  with assms show ?thesis by (simp add: updateDeploymentsJson_hardhat_def)
next
  case NotJson
  with assms show ?thesis by (simp add: updateDeploymentsJson_hardhat_def)
next
  case (Json d)
  with assms have w: "writeLedger (bondModuleRecord DEPLOYED_ADDRESSES_hardhat date a1) d s
      = (Inr (), s1)"
    by (simp add: updateDeploymentsJson_hardhat_def)
  from writeLedger_last_wins [OF w, of "bondModuleRecord DEPLOYED_ADDRESSES_hardhat date a2"] Json
  show ?thesis by (auto simp: updateDeploymentsJson_hardhat_def)
qed


section \<open>The run on an account that is already deployed, and the ledger upsert\<close>

lemma reads_writeLedger [simp]: "reads (snd (writeLedger r d s)) = reads s"
  by (simp add: writeLedger_def split: sum.splits)

lemma reads_updateDeploymentsJson_demo [simp]:
  "reads (snd (updateDeploymentsJson_demo date a s)) = reads s"
  by (simp add: updateDeploymentsJson_demo_def split: json_file.splits)

lemma reads_updateDeploymentsJson_hardhat [simp]:
  "reads (snd (updateDeploymentsJson_hardhat date a s)) = reads s"
  by (simp add: updateDeploymentsJson_hardhat_def split: json_file.splits)

lemma deployed_world_simps [simp]:
  "PRIVATE_KEY deployed_world = Some [1]" "preComputed deployed_world = (7, [2], [3])"
  "existingCode deployed_world = [4]" "today deployed_world = ''2025-11-02''"
  by (simp_all add: deployed_world_def)

lemma ledger_state_simps [simp]:
  "reads ledger_state = 0" "trace ledger_state = []"
  "deployments_json ledger_state = Json (JObj
         [(''networks'', JObj
            [(''baseSepolia'', JObj
               [(''modules'', JObj [(''bondModule'', earlier_record)])])])])"
  by (simp_all add: ledger_state_def)

lemma wf_ledger_state:
  "wf_ledger (JObj
         [(''networks'', JObj
            [(''baseSepolia'', JObj
               [(''modules'', JObj [(''bondModule'', earlier_record)])])])])"
  by (simp add: wf_ledger_def is_object_def)

lemma ledger_record_ledger_state: "ledger_record ledger_state = Some earlier_record"
  by (simp add: ledger_record_def ledger_key_def)

text \<open>
  C6, as the scripts have it. When the signing key is set and the account already has
  code, the run performs no mint, no multicall and no balance read, and returns no value.
  The viem script returns at once and leaves the ledger alone. The demo and the hardhat
  script upsert the ledger first, and their outcome is that of the upsert: on a ledger in
  the expected shape it succeeds and the record under the ledger key is the one built
  from today's date and this account.
\<close>

theorem deployed_account_short_circuits:
  assumes "PRIVATE_KEY w = Some key" and "existingCode w \<noteq> []"
  shows "main_viem L w s = (Inr (), s)
    \<and> main_demo L w s = updateDeploymentsJson_demo (today w) (fst (preComputed w)) s
    \<and> main_hardhat L w s = updateDeploymentsJson_hardhat (today w) (fst (preComputed w)) s
    \<and> trace (snd (main_demo L w s)) = trace s \<and> reads (snd (main_demo L w s)) = reads s
    \<and> trace (snd (main_hardhat L w s)) = trace s \<and> reads (snd (main_hardhat L w s)) = reads s
    \<and> ((\<exists>d. deployments_json s = Json d \<and> wf_ledger d) \<longrightarrow>
          fst (main_demo L w s) = Inr () \<and> fst (main_hardhat L w s) = Inr ()
          \<and> ledger_record (snd (main_demo L w s))
              = Some (bondModuleRecord DEPLOYED_ADDRESSES (today w) (fst (preComputed w)))
          \<and> ledger_record (snd (main_hardhat L w s))
              = Some (bondModuleRecord DEPLOYED_ADDRESSES_hardhat (today w)
                        (fst (preComputed w))))"
proof -
  have v: "main_viem L w s = (Inr (), s)"
    using assms by (simp add: main_viem_def split: prod.splits)
  have d: "main_demo L w s = updateDeploymentsJson_demo (today w) (fst (preComputed w)) s"
    using assms by (simp add: main_demo_def split: prod.splits)
  have h: "main_hardhat L w s = updateDeploymentsJson_hardhat (today w) (fst (preComputed w)) s"
    using assms by (simp add: main_hardhat_def split: prod.splits)
  have wf: "fst (main_demo L w s) = Inr () \<and> fst (main_hardhat L w s) = Inr ()
          \<and> ledger_record (snd (main_demo L w s))
              = Some (bondModuleRecord DEPLOYED_ADDRESSES (today w) (fst (preComputed w)))
          \<and> ledger_record (snd (main_hardhat L w s))
              = Some (bondModuleRecord DEPLOYED_ADDRESSES_hardhat (today w)
                        (fst (preComputed w)))"
    if "\<exists>d. deployments_json s = Json d \<and> wf_ledger d"
  proof -
    from that obtain doc where doc: "deployments_json s = Json doc" "wf_ledger doc" by blast
    from updateDeploymentsJson_demo_stored [of s "today w" "fst (preComputed w)"] that
      updateDeploymentsJson_hardhat_stored [OF doc, of "today w" "fst (preComputed w)"]
    show ?thesis unfolding d h by blast
  qed
  from v d h wf show ?thesis by simp
qed

theorem deployed_account_short_circuits_witness:
  "PRIVATE_KEY deployed_world = Some [1] \<and> existingCode deployed_world \<noteq> []
   \<and> (\<exists>d. deployments_json ledger_state = Json d \<and> wf_ledger d)
   \<and> main_viem toy_lib deployed_world ledger_state = (Inr (), ledger_state)
   \<and> trace (snd (main_hardhat toy_lib deployed_world ledger_state)) = []
   \<and> fst (main_hardhat toy_lib deployed_world ledger_state) = Inr ()
   \<and> ledger_record (snd (main_hardhat toy_lib deployed_world ledger_state))
       = Some (bondModuleRecord DEPLOYED_ADDRESSES_hardhat ''2025-11-02'' 7)"
proof -
  have k: "PRIVATE_KEY deployed_world = Some [1]" and c: "existingCode deployed_world \<noteq> []"
    by simp_all
  have wf: "\<exists>d. deployments_json ledger_state = Json d \<and> wf_ledger d"
    using wf_ledger_state by simp
  from deployed_account_short_circuits [OF k c, of toy_lib ledger_state] wf
  have "main_viem toy_lib deployed_world ledger_state = (Inr (), ledger_state)"
    and "trace (snd (main_hardhat toy_lib deployed_world ledger_state)) = trace ledger_state"
    and "fst (main_hardhat toy_lib deployed_world ledger_state) = Inr ()"
    and "ledger_record (snd (main_hardhat toy_lib deployed_world ledger_state))
       = Some (bondModuleRecord DEPLOYED_ADDRESSES_hardhat (today deployed_world)
                 (fst (preComputed deployed_world)))"
    by blast+
  with k c wf show ?thesis by simp
qed

text \<open>
  C6 as stated fails: the run does not hand back the record that exists. With code at the
  account and a ledger holding the record of an earlier run, the hardhat script ends
  without an error and leaves a newly built record in the place of the existing one; the
  viem script returns nothing and touches no ledger.
\<close>

theorem deployed_account_record_is_rewritten:
  "existingCode deployed_world \<noteq> []
   \<and> ledger_record ledger_state = Some earlier_record
   \<and> fst (main_hardhat toy_lib deployed_world ledger_state) = Inr ()
   \<and> ledger_record (snd (main_hardhat toy_lib deployed_world ledger_state))
       = Some (bondModuleRecord DEPLOYED_ADDRESSES_hardhat ''2025-11-02'' 7)
   \<and> ledger_record (snd (main_hardhat toy_lib deployed_world ledger_state))
       \<noteq> ledger_record ledger_state
   \<and> main_viem toy_lib deployed_world ledger_state = (Inr (), ledger_state)"
proof -
  have run: "main_hardhat toy_lib deployed_world ledger_state
      = updateDeploymentsJson_hardhat ''2025-11-02'' 7 ledger_state"
    by (simp add: main_hardhat_def)
  have st: "fst (updateDeploymentsJson_hardhat ''2025-11-02'' 7 ledger_state) = Inr ()
    \<and> ledger_record (snd (updateDeploymentsJson_hardhat ''2025-11-02'' 7 ledger_state))
        = Some (bondModuleRecord DEPLOYED_ADDRESSES_hardhat ''2025-11-02'' 7)"
    by (rule updateDeploymentsJson_hardhat_stored [OF ledger_state_simps(3) wf_ledger_state])
  have ne: "bondModuleRecord DEPLOYED_ADDRESSES_hardhat ''2025-11-02'' 7 \<noteq> earlier_record"
    unfolding earlier_record_def by (rule bondModuleRecord_date) simp
  have v: "main_viem toy_lib deployed_world ledger_state = (Inr (), ledger_state)"
    by (simp add: main_viem_def)
  from run st ne v ledger_record_ledger_state show ?thesis by simp
qed

text \<open>
  C8, as the scripts have it. The upsert is a read-merge-write of the document in which the
  record is stored under the fixed key \<^verbatim>\<open>networks.baseSepolia.modules.bondModule\<close>, whatever
  the account: on a ledger in the expected shape it succeeds and the record is under that
  key; it changes nothing outside the key path; and a later upsert, for the same or
  another account, replaces the record of the earlier one, the ledger being what the later
  upsert alone would have left.
\<close>

theorem ledger_upsert_fixed_key:
  "(wf_ledger d \<longrightarrow> (\<exists>d'. mergeBondModule r d = Inr d' \<and> at d' ledger_key = Some r))
   \<and> (mergeBondModule r d = Inr d1 \<longrightarrow>
        (\<forall>p. \<not> related ledger_key p \<longrightarrow> at d1 p = at d p)
        \<and> mergeBondModule r2 d1 = mergeBondModule r2 d)
   \<and> (updateDeploymentsJson_demo date a1 s = (Inr (), s1) \<longrightarrow>
        updateDeploymentsJson_demo date a2 s1 = updateDeploymentsJson_demo date a2 s)
   \<and> (updateDeploymentsJson_hardhat date a1 s = (Inr (), s2) \<longrightarrow>
        updateDeploymentsJson_hardhat date a2 s2 = updateDeploymentsJson_hardhat date a2 s)
   \<and> (deployments_json s = NoFile \<or> (\<exists>d. deployments_json s = Json d \<and> wf_ledger d) \<longrightarrow>
        fst (updateDeploymentsJson_demo date a s) = Inr ()
        \<and> ledger_record (snd (updateDeploymentsJson_demo date a s))
            = Some (bondModuleRecord DEPLOYED_ADDRESSES date a))
   \<and> ((\<exists>d. deployments_json s = Json d \<and> wf_ledger d) \<longrightarrow>
        fst (updateDeploymentsJson_hardhat date a s) = Inr ()
        \<and> ledger_record (snd (updateDeploymentsJson_hardhat date a s))
            = Some (bondModuleRecord DEPLOYED_ADDRESSES_hardhat date a))"
proof (intro conjI impI allI)
  show "\<exists>d'. mergeBondModule r d = Inr d' \<and> at d' ledger_key = Some r" if "wf_ledger d"
    using that by (rule mergeBondModule_wf)
  show "at d1 p = at d p" if "mergeBondModule r d = Inr d1" "\<not> related ledger_key p" for p
    using that by (rule mergeBondModule_frame)
  show "mergeBondModule r2 d1 = mergeBondModule r2 d" if "mergeBondModule r d = Inr d1"
    using that by (rule mergeBondModule_last_wins)
  show "updateDeploymentsJson_demo date a2 s1 = updateDeploymentsJson_demo date a2 s"
    if "updateDeploymentsJson_demo date a1 s = (Inr (), s1)"
    using that by (rule updateDeploymentsJson_demo_last_wins)
  show "updateDeploymentsJson_hardhat date a2 s2 = updateDeploymentsJson_hardhat date a2 s"
    if "updateDeploymentsJson_hardhat date a1 s = (Inr (), s2)"
    using that by (rule updateDeploymentsJson_hardhat_last_wins)
  show "fst (updateDeploymentsJson_demo date a s) = Inr ()"
    and "ledger_record (snd (updateDeploymentsJson_demo date a s))
            = Some (bondModuleRecord DEPLOYED_ADDRESSES date a)"
    if "deployments_json s = NoFile \<or> (\<exists>d. deployments_json s = Json d \<and> wf_ledger d)"
    using updateDeploymentsJson_demo_stored [OF that] by simp_all
  show "fst (updateDeploymentsJson_hardhat date a s) = Inr ()"
    and "ledger_record (snd (updateDeploymentsJson_hardhat date a s))
            = Some (bondModuleRecord DEPLOYED_ADDRESSES_hardhat date a)"
    if "\<exists>d. deployments_json s = Json d \<and> wf_ledger d"
    using that updateDeploymentsJson_hardhat_stored by blast+
qed

lemma first_upsert:
  shows "updateDeploymentsJson_demo ''2025-11-02'' 7 initial_state = (Inr (), ledger_after_first)"
  and "ledger_record ledger_after_first
         = Some (bondModuleRecord DEPLOYED_ADDRESSES ''2025-11-02'' 7)"
proof -
  have n: "deployments_json initial_state = NoFile
             \<or> (\<exists>d. deployments_json initial_state = Json d \<and> wf_ledger d)"
    by simp
  from updateDeploymentsJson_demo_stored [OF n, of "''2025-11-02''" 7]
  show "updateDeploymentsJson_demo ''2025-11-02'' 7 initial_state = (Inr (), ledger_after_first)"
    and "ledger_record ledger_after_first
         = Some (bondModuleRecord DEPLOYED_ADDRESSES ''2025-11-02'' 7)"
    by (simp_all add: ledger_after_first_def prod_eq_iff)
qed

lemma second_upsert:
  shows "ledger_after_second = snd (updateDeploymentsJson_demo ''2025-11-02'' 8 initial_state)"
  and "ledger_record ledger_after_second
         = Some (bondModuleRecord DEPLOYED_ADDRESSES ''2025-11-02'' 8)"
proof -
  have n: "deployments_json initial_state = NoFile
             \<or> (\<exists>d. deployments_json initial_state = Json d \<and> wf_ledger d)"
    by simp
  show e: "ledger_after_second = snd (updateDeploymentsJson_demo ''2025-11-02'' 8 initial_state)"
    unfolding ledger_after_second_def
    by (simp add: updateDeploymentsJson_demo_last_wins [OF first_upsert(1)])
  from updateDeploymentsJson_demo_stored [OF n, of "''2025-11-02''" 8]
  show "ledger_record ledger_after_second
         = Some (bondModuleRecord DEPLOYED_ADDRESSES ''2025-11-02'' 8)"
    by (simp add: e)
qed

text \<open>
  C8 as stated fails: the key is not the account address. Two upserts of the demo script
  for the accounts 7 and 8 write the same key; after the second one the record of account
  7 is replaced by the record of account 8, and the ledger is the one that the upsert for
  account 8 alone leaves.
\<close>

theorem upserts_for_two_accounts_share_one_key:
  "(7::nat) \<noteq> 8
   \<and> ledger_record ledger_after_first
       = Some (bondModuleRecord DEPLOYED_ADDRESSES ''2025-11-02'' 7)
   \<and> ledger_record ledger_after_second
       = Some (bondModuleRecord DEPLOYED_ADDRESSES ''2025-11-02'' 8)
   \<and> ledger_record ledger_after_second \<noteq> ledger_record ledger_after_first
   \<and> ledger_after_second = snd (updateDeploymentsJson_demo ''2025-11-02'' 8 initial_state)"
proof -
  have "bondModuleRecord DEPLOYED_ADDRESSES ''2025-11-02'' 8
      \<noteq> bondModuleRecord DEPLOYED_ADDRESSES ''2025-11-02'' 7"
    by (rule bondModuleRecord_account) simp_all
  with first_upsert(2) second_upsert show ?thesis by simp
qed

theorem ledger_upsert_fixed_key_witness:
  "wf_ledger (JObj [(''x'', JNum 1)])
   \<and> mergeBondModule (JStr ''a'') (JObj [(''x'', JNum 1)]) =
       Inr (JObj [(''x'', JNum 1),
                  (''networks'', JObj [(''baseSepolia'', JObj [(''modules'',
                     JObj [(''bondModule'', JStr ''a'')])])])])
   \<and> \<not> related ledger_key [''x'']
   \<and> at (JObj [(''x'', JNum 1),
                (''networks'', JObj [(''baseSepolia'', JObj [(''modules'',
                     JObj [(''bondModule'', JStr ''a'')])])])]) [''x'']
       = at (JObj [(''x'', JNum 1)]) [''x'']
   \<and> mergeBondModule (JStr ''b'')
        (JObj [(''x'', JNum 1),
               (''networks'', JObj [(''baseSepolia'', JObj [(''modules'',
                     JObj [(''bondModule'', JStr ''a'')])])])])
       = mergeBondModule (JStr ''b'') (JObj [(''x'', JNum 1)])
   \<and> deployments_json initial_state = NoFile
   \<and> updateDeploymentsJson_demo ''2025-11-02'' 7 initial_state = (Inr (), ledger_after_first)
   \<and> updateDeploymentsJson_demo ''2025-11-02'' 8 ledger_after_first
       = updateDeploymentsJson_demo ''2025-11-02'' 8 initial_state
   \<and> ledger_record (snd (updateDeploymentsJson_demo ''2025-11-02'' 8 initial_state))
       = Some (bondModuleRecord DEPLOYED_ADDRESSES ''2025-11-02'' 8)
   \<and> (\<exists>d. deployments_json ledger_state = Json d \<and> wf_ledger d)
   \<and> updateDeploymentsJson_hardhat ''2025-11-02'' 7 ledger_state
       = (Inr (), snd (updateDeploymentsJson_hardhat ''2025-11-02'' 7 ledger_state))
   \<and> updateDeploymentsJson_hardhat ''2025-11-02'' 8
         (snd (updateDeploymentsJson_hardhat ''2025-11-02'' 7 ledger_state))
       = updateDeploymentsJson_hardhat ''2025-11-02'' 8 ledger_state"
proof -
  let ?d = "JObj [(''x'', JNum 1)]"
  let ?d1 = "JObj [(''x'', JNum 1),
                  (''networks'', JObj [(''baseSepolia'', JObj [(''modules'',
                     JObj [(''bondModule'', JStr ''a'')])])])]"
  let ?h1 = "snd (updateDeploymentsJson_hardhat ''2025-11-02'' 7 ledger_state)"
  have wf: "wf_ledger ?d" by (simp add: wf_ledger_def is_object_def)
  have m: "mergeBondModule (JStr ''a'') ?d = Inr ?d1"
    by (simp add: mergeBondModule_def ensure_def within_def)
  have p: "\<not> related ledger_key [''x'']" by (simp add: ledger_key_def)
  have n: "deployments_json initial_state = NoFile" by simp
  have l: "\<exists>d. deployments_json ledger_state = Json d \<and> wf_ledger d"
    using wf_ledger_state by simp
  note inst = ledger_upsert_fixed_key [of ?d "JStr ''a''" ?d1 "JStr ''b''" "''2025-11-02''" 7
      initial_state ledger_after_first 8 undefined 8]
  from inst m p have "at ?d1 [''x''] = at ?d [''x'']"
    and "mergeBondModule (JStr ''b'') ?d1 = mergeBondModule (JStr ''b'') ?d"
    by blast+
  moreover from inst first_upsert(1)
  have "updateDeploymentsJson_demo ''2025-11-02'' 8 ledger_after_first
       = updateDeploymentsJson_demo ''2025-11-02'' 8 initial_state"
    by blast
  moreover from inst n
  have "ledger_record (snd (updateDeploymentsJson_demo ''2025-11-02'' 8 initial_state))
       = Some (bondModuleRecord DEPLOYED_ADDRESSES ''2025-11-02'' 8)"
    by blast
  moreover from ledger_upsert_fixed_key [of _ _ _ _ "''2025-11-02''" _ ledger_state _ _ _ 7] l
  have f: "fst (updateDeploymentsJson_hardhat ''2025-11-02'' 7 ledger_state) = Inr ()"
    by blast
  then have h1: "updateDeploymentsJson_hardhat ''2025-11-02'' 7 ledger_state = (Inr (), ?h1)"
    by (simp add: prod_eq_iff)
  moreover from ledger_upsert_fixed_key [of _ _ _ _ "''2025-11-02''" 7 ledger_state _ 8 ?h1] h1
  have "updateDeploymentsJson_hardhat ''2025-11-02'' 8 ?h1
       = updateDeploymentsJson_hardhat ''2025-11-02'' 8 ledger_state"
    by blast
  ultimately show ?thesis using wf m p n l first_upsert(1) by blast
qed

end
